theory Spec2Isabelle
  imports Main
begin

section \<open>JavaScript strings\<close>

text \<open>
  A JavaScript string is a sequence of UTF-16 code units; \<open>length\<close>, \<open>trim\<close>, \<open>includes\<close>
  and the regular expressions of the source (none has the \<open>u\<close> flag) all work on code units.
  A code unit is modelled as a natural number. \<open>js\<close> turns an ASCII literal of the theory
  into its code units; a character outside ASCII is written as its number (\<open>0xF3\<close> is
  \<open>o\<close> with an acute accent).
\<close>

type_synonym jschar = nat
type_synonym jsstring = "jschar list"

definition js :: "string \<Rightarrow> jsstring" where
  "js cs = map of_char cs"

definition isLineTerminator :: "jschar \<Rightarrow> bool" where
  "isLineTerminator c = (c = 0x0A \<or> c = 0x0D \<or> c = 0x2028 \<or> c = 0x2029)"

text \<open>The characters that \<open>\s\<close> matches and that \<open>trim\<close> strips: WhiteSpace and LineTerminator.\<close>

definition isWhiteSpace :: "jschar \<Rightarrow> bool" where
  "isWhiteSpace c =
     (c = 0x09 \<or> c = 0x0B \<or> c = 0x0C \<or> c = 0x20 \<or> c = 0xA0 \<or> c = 0x1680 \<or>
      (0x2000 \<le> c \<and> c \<le> 0x200A) \<or> c = 0x202F \<or> c = 0x205F \<or> c = 0x3000 \<or>
      c = 0xFEFF \<or> isLineTerminator c)"

definition isDigit :: "jschar \<Rightarrow> bool" where
  "isDigit c = (0x30 \<le> c \<and> c \<le> 0x39)"

definition trim :: "jsstring \<Rightarrow> jsstring" where
  "trim s = rev (dropWhile isWhiteSpace (rev (dropWhile isWhiteSpace s)))"

text \<open>
  \<open>String.prototype.toLowerCase\<close>, on Basic Latin and Latin-1: \<open>A\<close>-\<open>Z\<close> and the
  capital letters \<open>0xC0\<close>-\<open>0xDE\<close> (without the multiplication sign \<open>0xD7\<close>) move
  up by 32. The case mapping of the other Unicode blocks is not modelled: those code
  units stay as they are. No proof about arbitrary input below unfolds this definition.
\<close>

definition lowerChar :: "jschar \<Rightarrow> jschar" where
  "lowerChar c =
     (if (0x41 \<le> c \<and> c \<le> 0x5A) \<or> (0xC0 \<le> c \<and> c \<le> 0xDE \<and> c \<noteq> 0xD7) then c + 32 else c)"

definition toLowerCase :: "jsstring \<Rightarrow> jsstring" where
  "toLowerCase s = map lowerChar s"

text \<open>\<open>s.includes(k)\<close>: \<open>k\<close> occurs in \<open>s\<close> as a contiguous run of code units.\<close>

fun startsWith :: "jsstring \<Rightarrow> jsstring \<Rightarrow> bool" where
  "startsWith s [] = True"
| "startsWith [] (k # ks) = False"
| "startsWith (c # cs) (k # ks) = (c = k \<and> startsWith cs ks)"

fun includes_js :: "jsstring \<Rightarrow> jsstring \<Rightarrow> bool" where
  "includes_js [] k = (k = [])"
| "includes_js (c # cs) k = (startsWith (c # cs) k \<or> includes_js cs k)"

text \<open>\<open>parts.join(sep)\<close>.\<close>

fun join :: "jsstring \<Rightarrow> jsstring list \<Rightarrow> jsstring" where
  "join sep [] = []"
| "join sep [x] = x"
| "join sep (x # y # ys) = x @ sep @ join sep (y # ys)"

text \<open>
  \<open>[...new Set(xs)]\<close>: a Set keeps the insertion order and ignores the insertion of
  a value it already holds, so the first occurrence of each string survives.
\<close>

fun setInsertAll :: "'a list \<Rightarrow> 'a list \<Rightarrow> 'a list" where
  "setInsertAll seen [] = seen"
| "setInsertAll seen (x # xs) =
     (if x \<in> set seen then setInsertAll seen xs else setInsertAll (seen @ [x]) xs)"

definition dedupe :: "'a list \<Rightarrow> 'a list" where
  "dedupe xs = setInsertAll [] xs"

section \<open>Outcomes of a call\<close>

text \<open>
  A function of the source returns a value, throws, or never comes back (a \<open>while\<close>
  loop whose condition stays true).
\<close>

datatype ErrorCode = InvalidParams | InternalError | MethodNotFound

datatype thrown = McpError ErrorCode jsstring | TypeError | OtherError jsstring

datatype 'a outcome = Returns 'a | Throws thrown | Diverges

section \<open>Regular expressions\<close>

text \<open>
  The patterns of the source use literal characters, \<open>.\<close>, character classes (with
  ranges, \<open>\s\<close> and \<open>\d\<close>, possibly negated), \<open>^\<close> and \<open>$\<close> (never with the
  \<open>m\<close> flag), sequence, alternation, the quantifiers \<open>?\<close>, \<open>*\<close>, \<open>*?\<close>, \<open>+\<close>,
  \<open>+?\<close>, and groups. A non-capturing group \<open>(?:r)\<close> is just \<open>r\<close>. The Boolean of
  \<open>Star\<close> and \<open>Plus\<close> is True for the greedy quantifier and False for the lazy one.
\<close>

datatype cclass = CChar jschar | CRange jschar jschar | CWhite | CDigit

datatype regex =
    Eps
  | Chr jschar
  | Dot
  | Class bool "cclass list"
  | Bol
  | Eol
  | Seq regex regex
  | Alt regex regex
  | Opt regex
  | Star bool regex
  | Plus bool regex
  | Group nat regex

record regexp =
  source :: regex
  global :: bool
  ignoreCase :: bool
  dotAll :: bool

fun str :: "jsstring \<Rightarrow> regex" where
  "str [] = Eps"
| "str [c] = Chr c"
| "str (c # d # cs) = Seq (Chr c) (str (d # cs))"

fun seqs :: "regex list \<Rightarrow> regex" where
  "seqs [] = Eps"
| "seqs [r] = r"
| "seqs (r # q # rs) = Seq r (seqs (q # rs))"

fun alts :: "regex list \<Rightarrow> regex" where
  "alts [] = Class False []"
| "alts [r] = r"
| "alts (r # q # rs) = Alt r (alts (q # rs))"

text \<open>
  \<open>Canonicalize\<close> of the \<open>i\<close> flag without the \<open>u\<close> flag: the character's upper case
  when that is a single code unit, except that a character from \<open>0x80\<close> on never
  becomes an ASCII one. Basic Latin and Latin-1 are modelled (\<open>0xDF\<close> has a two-letter
  upper case and stays; \<open>0xB5\<close> and \<open>0xFF\<close> leave Latin-1); the other blocks stay as
  they are. Every character of the patterns below is in Basic Latin or Latin-1 and
  only its own two cases canonicalize to it, so for these patterns the model is exact.
\<close>

definition canonicalize :: "jschar \<Rightarrow> jschar" where
  "canonicalize c =
     (if (0x61 \<le> c \<and> c \<le> 0x7A) \<or> (0xE0 \<le> c \<and> c \<le> 0xFE \<and> c \<noteq> 0xF7) then c - 32
      else if c = 0xB5 then 0x39C
      else if c = 0xFF then 0x178
      else c)"

definition sameChar :: "bool \<Rightarrow> jschar \<Rightarrow> jschar \<Rightarrow> bool" where
  "sameChar ic a c = (if ic then canonicalize a = canonicalize c else a = c)"

text \<open>\<open>\s\<close> and \<open>\d\<close> hold no cased character: the \<open>i\<close> flag does not change them.\<close>

fun inClass :: "bool \<Rightarrow> cclass \<Rightarrow> jschar \<Rightarrow> bool" where
  "inClass ic (CChar a) c = sameChar ic a c"
| "inClass ic (CRange lo hi) c =
     (if ic then list_ex (\<lambda>a. canonicalize a = canonicalize c) [lo..<Suc hi]
      else lo \<le> c \<and> c \<le> hi)"
| "inClass ic CWhite c = isWhiteSpace c"
| "inClass ic CDigit c = isDigit c"

definition classMatches :: "regexp \<Rightarrow> bool \<Rightarrow> cclass list \<Rightarrow> jschar \<Rightarrow> bool" where
  "classMatches re neg items c = (list_ex (\<lambda>i. inClass (ignoreCase re) i c) items \<noteq> neg)"

definition dotMatches :: "regexp \<Rightarrow> jschar \<Rightarrow> bool" where
  "dotMatches re c = (dotAll re \<or> \<not> isLineTerminator c)"

text \<open>
  The backtracking matcher of the language definition, with its continuation as data:
  a stack of what is still to be matched. \<open>Progress l\<close> is the check of a \<open>*\<close> or \<open>?\<close>
  iteration that began with \<open>l\<close> characters left: an iteration that consumed nothing
  is rejected. \<open>Close i r0\<close> ends group \<open>i\<close>, which began at the suffix \<open>r0\<close>. The
  input is the suffix still to be read; \<open>n\<close> is the length of the whole input, so
  that \<open>^\<close> can tell the start. The result is the suffix after the match and the
  captures. No pattern of the source has a group under a quantifier, so the reset of
  the captures at each iteration is not modelled.
\<close>

datatype frame = Re regex | Progress nat | Close nat jsstring

type_synonym captures = "nat \<rightharpoonup> jsstring"

fun rsize :: "regex \<Rightarrow> nat" where
  "rsize (Seq a b) = rsize a + rsize b + 1"
| "rsize (Alt a b) = rsize a + rsize b + 1"
| "rsize (Opt r) = rsize r + 2"
| "rsize (Star g r) = rsize r + 2"
| "rsize (Plus g r) = 2 * rsize r + 3"
| "rsize (Group i r) = rsize r + 2"
| "rsize r = 1"

fun weight :: "nat \<Rightarrow> frame list \<Rightarrow> nat" where
  "weight l [] = 0"
| "weight l (Re r # k) = rsize r + weight l k"
| "weight l (Progress p # k) = 1 + (if l < p then weight l k else 0)"
| "weight l (Close i r0 # k) = 1 + weight l k"

function (sequential) matcher ::
  "regexp \<Rightarrow> nat \<Rightarrow> frame list \<Rightarrow> jsstring \<Rightarrow> captures \<Rightarrow> (jsstring \<times> captures) option" where
  "matcher re n [] rest caps = Some (rest, caps)"
| "matcher re n (Re Eps # k) rest caps = matcher re n k rest caps"
| "matcher re n (Re (Chr a) # k) rest caps =
     (case rest of [] \<Rightarrow> None
      | c # cs \<Rightarrow> if sameChar (ignoreCase re) a c then matcher re n k cs caps else None)"
| "matcher re n (Re Dot # k) rest caps =
     (case rest of [] \<Rightarrow> None
      | c # cs \<Rightarrow> if dotMatches re c then matcher re n k cs caps else None)"
| "matcher re n (Re (Class neg items) # k) rest caps =
     (case rest of [] \<Rightarrow> None
      | c # cs \<Rightarrow> if classMatches re neg items c then matcher re n k cs caps else None)"
| "matcher re n (Re Bol # k) rest caps =
     (if length rest = n then matcher re n k rest caps else None)"
| "matcher re n (Re Eol # k) rest caps =
     (if rest = [] then matcher re n k rest caps else None)"
| "matcher re n (Re (Seq a b) # k) rest caps = matcher re n (Re a # Re b # k) rest caps"
| "matcher re n (Re (Alt a b) # k) rest caps =
     (case matcher re n (Re a # k) rest caps of
        Some r \<Rightarrow> Some r
      | None \<Rightarrow> matcher re n (Re b # k) rest caps)"
| "matcher re n (Re (Opt r) # k) rest caps =
     (case matcher re n (Re r # Progress (length rest) # k) rest caps of
        Some x \<Rightarrow> Some x
      | None \<Rightarrow> matcher re n k rest caps)"
| "matcher re n (Re (Star greedy r) # k) rest caps =
     (if greedy then
        (case matcher re n (Re r # Progress (length rest) # Re (Star greedy r) # k) rest caps of
           Some x \<Rightarrow> Some x
         | None \<Rightarrow> matcher re n k rest caps)
      else
        (case matcher re n k rest caps of
           Some x \<Rightarrow> Some x
         | None \<Rightarrow> matcher re n (Re r # Progress (length rest) # Re (Star greedy r) # k) rest caps))"
| "matcher re n (Re (Plus greedy r) # k) rest caps =
     matcher re n (Re r # Re (Star greedy r) # k) rest caps"
| "matcher re n (Re (Group i r) # k) rest caps =
     matcher re n (Re r # Close i rest # k) rest caps"
| "matcher re n (Progress l # k) rest caps =
     (if length rest < l then matcher re n k rest caps else None)"
| "matcher re n (Close i r0 # k) rest caps =
     matcher re n k rest (caps(i \<mapsto> take (length r0 - length rest) r0))"
  by pat_completeness auto

termination
  by (relation "measures [\<lambda>(re, n, k, rest, caps). length rest,
                          \<lambda>(re, n, k, rest, caps). weight (length rest) k]")
     auto

text \<open>
  \<open>RegExpBuiltinExec\<close>: the match is tried at the current start and then one code unit
  further each time, the end of the input included. The result is the suffix at
  the start of the match, the suffix after it, and the captures.
\<close>

fun search :: "regexp \<Rightarrow> nat \<Rightarrow> jsstring \<Rightarrow> (jsstring \<times> jsstring \<times> captures) option" where
  "search re n [] =
     (case matcher re n [Re (source re)] [] Map.empty of
        Some (rest', caps) \<Rightarrow> Some ([], rest', caps)
      | None \<Rightarrow> None)"
| "search re n (c # cs) =
     (case matcher re n [Re (source re)] (c # cs) Map.empty of
        Some (rest', caps) \<Rightarrow> Some (c # cs, rest', caps)
      | None \<Rightarrow> search re n cs)"

text \<open>\<open>pattern.test(s)\<close> and \<open>s.match(pattern)\<close> for a pattern without the \<open>g\<close> flag
  (its \<open>lastIndex\<close> stays 0): the search starts at the beginning of \<open>s\<close>.\<close>

definition test :: "regexp \<Rightarrow> jsstring \<Rightarrow> bool" where
  "test re s = (search re (length s) s \<noteq> None)"

definition match :: "regexp \<Rightarrow> jsstring \<Rightarrow> captures option" where
  "match re s = map_option (\<lambda>(st, rest', caps). caps) (search re (length s) s)"

section \<open>Issue data and the QA analysis\<close>

record IssueData =
  title :: jsstring
  description :: jsstring
  labels :: "jsstring list"
  assignees :: "jsstring list"
  author :: jsstring
  state :: jsstring
  created_at :: jsstring
  updated_at :: jsstring
  web_url :: jsstring
  project_name :: jsstring
  iid :: int

record QAAnalysis =
  requirements :: "jsstring list"
  acceptanceCriteria :: "jsstring list"
  testingSuggestions :: "jsstring list"
  riskAreas :: "jsstring list"
  testTypes :: "jsstring list"

subsection \<open>The loop \<open>while ((match = pattern.exec(description)) !== null)\<close>\<close>

text \<open>
  Both extractors run the same loop body: \<open>match[1].trim()\<close> is pushed when it is
  longer than a minimum (10 for requirements, 5 for criteria). \<open>rest\<close> is the input from
  \<open>lastIndex\<close> on. \<open>match[1]\<close> of a group that took no part in the match is
  \<open>undefined\<close>, and \<open>.trim()\<close> on it throws. After a match, \<open>exec\<close> sets \<open>lastIndex\<close>
  to the end of the match when the pattern has the \<open>g\<close> flag; the next \<open>exec\<close> of a
  pattern without it, or after an empty match, finds the same match again, for ever.
\<close>

function execLoop ::
  "regexp \<Rightarrow> nat \<Rightarrow> nat \<Rightarrow> jsstring \<Rightarrow> jsstring list \<Rightarrow> jsstring list outcome" where
  "execLoop re minLen n rest acc =
     (case search re n rest of
        None \<Rightarrow> Returns acc
      | Some (st, rest', caps) \<Rightarrow>
          (case caps 1 of
             None \<Rightarrow> Throws TypeError
           | Some cap \<Rightarrow>
               if global re \<and> length rest' < length st
               then execLoop re minLen n rest'
                      (if length (trim cap) > minLen then acc @ [trim cap] else acc)
               else Diverges))"
  by pat_completeness auto

termination
proof (relation "measure (\<lambda>(re, minLen, n, rest, acc). length rest)")
  show "wf (measure (\<lambda>(re, minLen, n, rest, acc). length rest))"
    by simp
next
  fix re :: regexp and minLen n :: nat and rest st rest' cap :: jsstring
    and acc :: "jsstring list" and found tail caps
  assume found: "search re n rest = Some found" "(st, tail) = found"
    and shorter: "global re \<and> length rest' < length st" "(rest', caps) = tail"
  have "length st' \<le> length rest"
    if "search re n rest = Some (st', rest'', caps')" for st' rest'' caps'
    using that by (induction rest) (auto split: option.splits)
  with found shorter have "length rest' < length rest"
    by fastforce
  then show "((re, minLen, n, rest',
               if minLen < length (trim cap) then acc @ [trim cap] else acc),
              re, minLen, n, rest, acc)
             \<in> measure (\<lambda>(re, minLen, n, rest, acc). length rest)"
    by simp
qed

declare execLoop.simps [simp del]

text \<open>\<open>patterns.forEach(pattern => { while ... })\<close> over the shared array \<open>acc\<close>.\<close>

fun forEachPattern ::
  "regexp list \<Rightarrow> nat \<Rightarrow> jsstring \<Rightarrow> jsstring list \<Rightarrow> jsstring list outcome" where
  "forEachPattern [] minLen d acc = Returns acc"
| "forEachPattern (p # ps) minLen d acc =
     (case execLoop p minLen (length d) d acc of
        Returns acc' \<Rightarrow> forEachPattern ps minLen d acc'
      | Throws e \<Rightarrow> Throws e
      | Diverges \<Rightarrow> Diverges)"

subsection \<open>extractRequirements\<close>

definition separators :: regex where
  "separators = Star True (Class False [CChar 0x3A, CChar 0x2D, CWhite])"

definition capitalLetter :: regex where
  "capitalLetter = Class False [CRange 0x41 0x5A]"

definition reqPattern1 :: regexp where
  "reqPattern1 =
     \<lparr>source = seqs [alts [str (js ''requisito''), str (js ''requerimiento''), str (js ''requirement'')],
                      Opt (str (js ''s'')), separators, Group 1 (Star False Dot),
                      alts [str [10, 10], Seq (Chr 10) capitalLetter, Eol]],
      global = True, ignoreCase = True, dotAll = True\<rparr>"

definition reqPattern2 :: regexp where
  "reqPattern2 =
     \<lparr>source = seqs [alts [str (js ''necesita''), str (js ''debe''), str (js ''should''), str (js ''must'')],
                      separators, Group 1 (Star False Dot),
                      alts [Chr 10, str (js ''.''), Eol]],
      global = True, ignoreCase = True, dotAll = True\<rparr>"

definition reqPattern3 :: regexp where
  "reqPattern3 =
     \<lparr>source = seqs [alts [str (js ''como''), str (js ''as a'')], Star False Dot,
                      alts [str (js ''quiero''), str (js ''want''), str (js ''need'')], Star False Dot,
                      alts [str (js ''para''), str (js ''so that'')], Group 1 (Star False Dot),
                      alts [Chr 10, str (js ''.''), Eol]],
      global = True, ignoreCase = True, dotAll = True\<rparr>"

definition reqPatterns :: "regexp list" where
  "reqPatterns = [reqPattern1, reqPattern2, reqPattern3]"

definition extractRequirements :: "IssueData \<Rightarrow> jsstring list outcome" where
  "extractRequirements issueData =
     (case forEachPattern reqPatterns 10 (description issueData) [] of
        Returns reqs \<Rightarrow>
          Returns (if length reqs = 0 then reqs @ [js ''Implementar: '' @ title issueData] else reqs)
      | Throws e \<Rightarrow> Throws e
      | Diverges \<Rightarrow> Diverges)"

subsection \<open>extractAcceptanceCriteria\<close>

definition criteriaPattern1 :: regexp where
  "criteriaPattern1 =
     \<lparr>source = seqs [alts [seqs [str (js ''criterio''), Opt (str (js ''s'')), str (js '' de aceptaci''),
                                  Class False [CChar 0x6F, CChar 0xF3], str (js ''n'')],
                            str (js ''acceptance criteria'')],
                      separators, Group 1 (Star False (Seq (Star True Dot) (Chr 10))),
                      alts [Seq (Chr 10) capitalLetter, str [10, 10], Eol]],
      global = True, ignoreCase = True, dotAll = True\<rparr>"

definition criteriaPattern2 :: regexp where
  "criteriaPattern2 =
     \<lparr>source = seqs [alts [str (js ''dado''), str (js ''given'')], Star False Dot,
                      alts [str (js ''cuando''), str (js ''when'')], Star False Dot,
                      alts [str (js ''entonces''), str (js ''then'')], Group 1 (Star False Dot),
                      alts [Chr 10, str (js ''.''), Eol]],
      global = True, ignoreCase = True, dotAll = True\<rparr>"

definition criteriaPattern3 :: regexp where
  "criteriaPattern3 =
     \<lparr>source = seqs [Class False [CChar 0x2D, CChar 0x2A], Star True (Class False [CWhite]),
                      Group 1 (Plus False Dot), alts [Chr 10, Eol]],
      global = True, ignoreCase = False, dotAll = False\<rparr>"

definition criteriaPatterns :: "regexp list" where
  "criteriaPatterns = [criteriaPattern1, criteriaPattern2, criteriaPattern3]"

definition extractAcceptanceCriteria :: "IssueData \<Rightarrow> jsstring list outcome" where
  "extractAcceptanceCriteria issueData =
     forEachPattern criteriaPatterns 5 (description issueData) []"

subsection \<open>generateTestingSuggestions\<close>

definition testingSuggestionsTable :: "(jsstring list \<times> jsstring list) list" where
  "testingSuggestionsTable =
     [([js ''login'', js ''auth'', js ''password'', js ''usuario''],
       [js ''Verificar login con credenciales v'' @ [0xE1] @ js ''lidas'',
        js ''Verificar error con credenciales inv'' @ [0xE1] @ js ''lidas'',
        js ''Verificar logout funciona correctamente'',
        js ''Probar casos de seguridad (inyecci'' @ [0xF3] @ js ''n, XSS)'']),
      ([js ''form'', js ''formulario'', js ''input'', js ''campo''],
       [js ''Validar todos los campos obligatorios'',
        js ''Probar validaciones de formato'',
        js ''Verificar mensajes de error apropiados'',
        js ''Probar env'' @ [0xED] @ js ''o con datos v'' @ [0xE1] @ js ''lidos e inv'' @ [0xE1] @ js ''lidos'']),
      ([js ''api'', js ''endpoint'', js ''service''],
       [js ''Probar respuestas con datos v'' @ [0xE1] @ js ''lidos'',
        js ''Verificar manejo de errores HTTP'',
        js ''Validar estructura de respuestas JSON'',
        js ''Probar autenticaci'' @ [0xF3] @ js ''n y autorizaci'' @ [0xF3] @ js ''n'']),
      ([js ''ui'', js ''interfaz'', js ''button'', js ''bot'' @ [0xF3] @ js ''n''],
       [js ''Verificar dise'' @ [0xF1] @ js ''o responsive'',
        js ''Probar accesibilidad (WCAG)'',
        js ''Validar navegaci'' @ [0xF3] @ js ''n entre pantallas'',
        js ''Verificar estados de loading y error'']),
      ([js ''database'', js ''datos'', js ''guardar'', js ''save''],
       [js ''Verificar persistencia de datos'',
        js ''Probar integridad referencial'',
        js ''Validar rollback en errores'',
        js ''Probar concurrencia de acceso''])]"

definition universalSuggestions :: "jsstring list" where
  "universalSuggestions =
     [js ''Verificar que el cambio no rompe funcionalidad existente'',
      js ''Probar en diferentes navegadores/dispositivos'',
      js ''Validar performance bajo carga normal'',
      js ''Revisar logs de errores durante las pruebas'']"

text \<open>
  \<open>forEach\<close> pushes the tests of each group that has a keyword in \<open>fullText\<close>, in
  the order of the table; then the four universal suggestions are pushed
  (\<open>pushedSuggestions\<close> is the array at that point), and the array goes through a
  Set. \<open>issueData\<close> is not read.
\<close>

definition pushedSuggestions :: "jsstring \<Rightarrow> jsstring list" where
  "pushedSuggestions fullText =
     concat (map snd (filter (\<lambda>(keywords, tests).
                                 list_ex (\<lambda>keyword. includes_js fullText keyword) keywords)
                      testingSuggestionsTable))
     @ universalSuggestions"

definition generateTestingSuggestions :: "IssueData \<Rightarrow> jsstring \<Rightarrow> jsstring list" where
  "generateTestingSuggestions issueData fullText = dedupe (pushedSuggestions fullText)"

subsection \<open>identifyRiskAreas\<close>

definition plain :: "regex \<Rightarrow> regexp" where
  "plain r = \<lparr>source = r, global = False, ignoreCase = False, dotAll = False\<rparr>"

definition riskIndicators :: "(regexp \<times> jsstring) list" where
  "riskIndicators =
     [(plain (alts [str (js ''security''), str (js ''seguridad''), str (js ''auth''), str (js ''password'')]),
       js ''Seguridad - requiere testing exhaustivo''),
      (plain (alts [str (js ''payment''), str (js ''pago''), str (js ''billing''),
                    str (js ''facturaci'' @ [0xF3] @ js ''n'')]),
       js ''Pagos - cr'' @ [0xED] @ js ''tico para el negocio''),
      (plain (alts [str (js ''data''), str (js ''datos''), str (js ''database'')]),
       js ''Integridad de datos - riesgo de p'' @ [0xE9] @ js ''rdida''),
      (plain (alts [str (js ''migration''), str (js ''migraci'' @ [0xF3] @ js ''n'')]),
       js ''Migraci'' @ [0xF3] @ js ''n - riesgo de downtime''),
      (plain (alts [str (js ''integration''), str (js ''integraci'' @ [0xF3] @ js ''n''),
                    seqs [str (js ''third''), Dot, str (js ''party'')]]),
       js ''Integraciones externas - dependencias''),
      (plain (alts [str (js ''performance''), str (js ''rendimiento'')]),
       js ''Performance - impacto en UX'')]"

definition criticalLabels :: "jsstring list" where
  "criticalLabels =
     [js ''critical'', js ''cr'' @ [0xED] @ js ''tico'', js ''high-priority'', js ''security'', js ''bug'']"

definition highPriorityRisk :: jsstring where
  "highPriorityRisk = js ''Alta prioridad - requiere testing completo antes de release''"

definition identifyRiskAreas :: "jsstring \<Rightarrow> jsstring list \<Rightarrow> jsstring list" where
  "identifyRiskAreas fullText labelList =
     map snd (filter (\<lambda>(pattern, risk). test pattern fullText) riskIndicators)
     @ (if list_ex (\<lambda>label. toLowerCase label \<in> set criticalLabels) labelList
        then [highPriorityRisk] else [])"

subsection \<open>determineTestTypes\<close>

definition typeMapping :: "(regexp \<times> jsstring) list" where
  "typeMapping =
     [(plain (alts [str (js ''unit''), str (js ''unitario'')]), js ''Testing Unitario''),
      (plain (alts [str (js ''integration''), str (js ''integraci'' @ [0xF3] @ js ''n'')]),
       js ''Testing de Integraci'' @ [0xF3] @ js ''n''),
      (plain (alts [str (js ''ui''), str (js ''interfaz''), str (js ''frontend'')]), js ''Testing de UI/UX''),
      (plain (alts [str (js ''api''), str (js ''service''), str (js ''backend'')]), js ''Testing de API''),
      (plain (alts [str (js ''performance''), str (js ''rendimiento'')]), js ''Testing de Performance''),
      (plain (alts [str (js ''security''), str (js ''seguridad'')]), js ''Testing de Seguridad''),
      (plain (alts [str (js ''mobile''), str (js ''m'' @ [0xF3] @ js ''vil'')]), js ''Testing Mobile''),
      (plain (alts [str (js ''accessibility''), str (js ''accesibilidad'')]),
       js ''Testing de Accesibilidad'')]"

definition baselineTestTypes :: "jsstring list" where
  "baselineTestTypes = [js ''Testing Funcional'', js ''Testing de Regresi'' @ [0xF3] @ js ''n'']"

text \<open>The label list is a parameter of the source that its body never reads.\<close>

definition determineTestTypes :: "jsstring \<Rightarrow> jsstring list \<Rightarrow> jsstring list" where
  "determineTestTypes fullText labelList =
     dedupe (map snd (filter (\<lambda>(pattern, type). test pattern fullText) typeMapping)
             @ baselineTestTypes)"

subsection \<open>analyzeIssueForQA\<close>

definition analyzeIssueForQA :: "IssueData \<Rightarrow> QAAnalysis outcome" where
  "analyzeIssueForQA issueData =
     (let fullText = toLowerCase (title issueData) @ js '' '' @ toLowerCase (description issueData)
      in case extractRequirements issueData of
           Throws e \<Rightarrow> Throws e
         | Diverges \<Rightarrow> Diverges
         | Returns reqs \<Rightarrow>
             (case extractAcceptanceCriteria issueData of
                Throws e \<Rightarrow> Throws e
              | Diverges \<Rightarrow> Diverges
              | Returns criteria \<Rightarrow>
                  Returns \<lparr>requirements = reqs,
                           acceptanceCriteria = criteria,
                           testingSuggestions = generateTestingSuggestions issueData fullText,
                           riskAreas = identifyRiskAreas fullText (labels issueData),
                           testTypes = determineTestTypes fullText (labels issueData)\<rparr>))"

section \<open>The report formatter\<close>

text \<open>Decimal digits of a number, as \<open>${n}\<close> prints a non-negative integer.\<close>

function showNat :: "nat \<Rightarrow> jsstring" where
  "showNat n = (if n < 10 then [48 + n] else showNat (n div 10) @ [48 + n mod 10])"
  by pat_completeness auto

termination
  by (relation "measure id") auto

declare showNat.simps [simp del]

text \<open>\<open>iid\<close> is an integer; \<open>${issueData.iid}\<close> prints it in decimal (below \<open>10^21\<close>).\<close>

definition showInt :: "int \<Rightarrow> jsstring" where
  "showInt i = (if i < 0 then js ''-'' @ showNat (nat (- i)) else showNat (nat i))"

text \<open>\<open>xs.map((x, index) => `${index + 1}. ${x}`).join('\n')\<close>\<close>

definition numbered :: "jsstring list \<Rightarrow> jsstring" where
  "numbered xs =
     join [10] (map (\<lambda>(index, x). showNat (index + 1) @ js ''. '' @ x) (enumerate 0 xs))"

text \<open>
  The parameter \<open>comments\<close> is typed \<open>any[]\<close>; the template reads
  \<open>comment.author.name\<close>, \<open>comment.created_at\<close> and \<open>comment.body\<close> of each comment it
  renders. A note of GitLab carries \<open>author\<close> with a \<open>name\<close>. A comment of a GitHub
  issue carries \<open>user\<close> and no \<open>author\<close>, and the GitHub tool hands the comments over as
  the API sends them: on such a comment \<open>comment.author\<close> is \<open>undefined\<close> and
  \<open>comment.author.name\<close> throws a TypeError. \<open>commentAuthor\<close> is the name of
  \<open>comment.author\<close>, None for a comment without \<open>author\<close>; both providers send
  \<open>created_at\<close> and \<open>body\<close>.
  \<open>new Date(comment.created_at).toLocaleDateString('es-ES')\<close> belongs to the platform
  (it depends on its locale data and time zone): the formatter takes it as the
  parameter \<open>localDate\<close>.
\<close>

record Comment =
  commentAuthor :: "jsstring option"
  createdAt :: jsstring
  body :: jsstring

definition renderComment :: "(jsstring \<Rightarrow> jsstring) \<Rightarrow> Comment \<Rightarrow> jsstring outcome" where
  "renderComment localDate comment =
     (case commentAuthor comment of
        None \<Rightarrow> Throws TypeError
      | Some authorName \<Rightarrow>
          Returns (js ''**'' @ authorName @ js ''** ('' @ localDate (createdAt comment) @ js ''):''
                   @ [10] @ body comment @ [10]))"

text \<open>\<open>.map(comment => ...)\<close> over the comments: they are rendered in order, and the first
  one that throws ends the call.\<close>

fun mapRender :: "(jsstring \<Rightarrow> jsstring) \<Rightarrow> Comment list \<Rightarrow> jsstring list outcome" where
  "mapRender localDate [] = Returns []"
| "mapRender localDate (comment # others) =
     (case renderComment localDate comment of
        Throws e \<Rightarrow> Throws e
      | Diverges \<Rightarrow> Diverges
      | Returns rendered \<Rightarrow>
          (case mapRender localDate others of
             Throws e \<Rightarrow> Throws e
           | Diverges \<Rightarrow> Diverges
           | Returns tail \<Rightarrow> Returns (rendered # tail)))"

definition commentsHeading :: "nat \<Rightarrow> jsstring" where
  "commentsHeading n =
     js ''## '' @ [0xD83D, 0xDCAC] @ js '' Comentarios Relevantes ('' @ showNat n @ js '')'' @ [10]"

definition commentsRule :: jsstring where
  "commentsRule = [10] @ js ''---'' @ [10]"

definition onlyThreeNote :: jsstring where
  "onlyThreeNote = [10] @ js ''*(Mostrando solo los 3 comentarios m'' @ [0xE1] @ js ''s recientes)*''"

definition commentsSection :: "(jsstring \<Rightarrow> jsstring) \<Rightarrow> Comment list \<Rightarrow> jsstring outcome" where
  "commentsSection localDate comments =
     (if length comments > 0
      then (case mapRender localDate (take 3 comments) of
              Throws e \<Rightarrow> Throws e
            | Diverges \<Rightarrow> Diverges
            | Returns rendered \<Rightarrow>
                Returns (commentsHeading (length comments)
                         @ join commentsRule rendered
                         @ (if length comments > 3 then onlyThreeNote else [])))
      else Returns [])"

definition reportHead :: "IssueData \<Rightarrow> QAAnalysis \<Rightarrow> jsstring" where
  "reportHead issueData qaAnalysis =
     js ''# '' @ [0xD83D, 0xDCCB] @ js '' An'' @ [0xE1] @ js ''lisis QA Completo'' @ [10, 10]
     @ js ''## '' @ [0xD83D, 0xDCC4] @ js '' Informaci'' @ [0xF3] @ js ''n del Issue'' @ [10]
     @ js ''**Proyecto:** '' @ project_name issueData
     @ [10] @ js ''**Issue:** #'' @ showInt (iid issueData) @ js '' - '' @ title issueData
     @ [10] @ js ''**Estado:** '' @ state issueData
     @ [10] @ js ''**Autor:** '' @ author issueData
     @ [10] @ js ''**Asignados:** ''
     @ (if length (assignees issueData) > 0 then join (js '', '') (assignees issueData)
        else js ''Sin asignar'')
     @ [10] @ js ''**Etiquetas:** ''
     @ (if length (labels issueData) > 0 then join (js '', '') (labels issueData)
        else js ''Sin etiquetas'')
     @ [10] @ js ''**URL:** '' @ web_url issueData
     @ [10, 10] @ js ''## '' @ [0xD83C, 0xDFAF] @ js '' Requerimientos Identificados'' @ [10]
     @ numbered (requirements qaAnalysis)
     @ [10, 10] @ js ''## '' @ [0x2705] @ js '' Criterios de Aceptaci'' @ [0xF3] @ js ''n'' @ [10]
     @ (if length (acceptanceCriteria qaAnalysis) > 0 then numbered (acceptanceCriteria qaAnalysis)
        else js ''No se encontraron criterios de aceptaci'' @ [0xF3] @ js ''n expl'' @ [0xED]
             @ js ''citos. Revisar descripci'' @ [0xF3] @ js ''n del issue.'')
     @ [10, 10] @ js ''## '' @ [0xD83E, 0xDDEA] @ js '' Sugerencias de Testing'' @ [10]
     @ numbered (testingSuggestions qaAnalysis)
     @ [10, 10] @ js ''## '' @ [0x26A0, 0xFE0F] @ js '' '' @ [0xC1] @ js ''reas de Riesgo Identificadas'' @ [10]
     @ (if length (riskAreas qaAnalysis) > 0 then numbered (riskAreas qaAnalysis)
        else js ''No se identificaron '' @ [0xE1] @ js ''reas de riesgo espec'' @ [0xED] @ js ''ficas.'')
     @ [10, 10] @ js ''## '' @ [0xD83D, 0xDD2C] @ js '' Tipos de Testing Recomendados'' @ [10]
     @ numbered (testTypes qaAnalysis)
     @ [10, 10] @ js ''## '' @ [0xD83D, 0xDCDD] @ js '' Descripci'' @ [0xF3] @ js ''n Original del Issue'' @ [10]
     @ (if description issueData \<noteq> [] then description issueData
        else js ''Sin descripci'' @ [0xF3] @ js ''n proporcionada'')
     @ [10, 10]"

definition reportFooter :: jsstring where
  "reportFooter =
     [10, 10] @ js ''---'' @ [10] @ js ''*An'' @ [0xE1] @ js ''lisis generado autom'' @ [0xE1]
     @ js ''ticamente por GitLab QA MCP Server*''"

text \<open>The template of the source is one literal: the head up to the description, the
  comments section, the footer. Nothing of the head or the footer can throw; a
  comment without \<open>author\<close> among those rendered makes the whole call throw.\<close>

definition formatQAAnalysis ::
  "(jsstring \<Rightarrow> jsstring) \<Rightarrow> IssueData \<Rightarrow> QAAnalysis \<Rightarrow> Comment list \<Rightarrow> jsstring outcome" where
  "formatQAAnalysis localDate issueData qaAnalysis comments =
     (case commentsSection localDate comments of
        Throws e \<Rightarrow> Throws e
      | Diverges \<Rightarrow> Diverges
      | Returns section \<Rightarrow> Returns (reportHead issueData qaAnalysis @ section @ reportFooter))"

section \<open>Issue links\<close>

text \<open>\<open>parseInt(digits, 10)\<close> on a capture of \<open>(\d+)\<close>: the value of the decimal digits
  (a JavaScript number holds it exactly below \<open>2^53\<close>).\<close>

definition parseInt10 :: "jsstring \<Rightarrow> nat" where
  "parseInt10 ds = foldl (\<lambda>acc c. 10 * acc + (c - 48)) 0 ds"

subsection \<open>GitHub\<close>

record GitHubIssueRef =
  owner :: jsstring
  repo :: jsstring
  issueNumber :: nat

definition notSlash :: regex where
  "notSlash = Class True [CChar 0x2F]"

definition digit :: regex where
  "digit = Class False [CDigit]"

definition githubIssuePattern :: regexp where
  "githubIssuePattern =
     plain (seqs [Bol, str (js ''http''), Opt (str (js ''s'')), str (js ''://github.com/''),
                  Group 1 (Plus True notSlash), str (js ''/''),
                  Group 2 (Plus True notSlash), str (js ''/issues/''),
                  Group 3 (Plus True digit)])"

definition githubIssueUrlInvalid :: jsstring where
  "githubIssueUrlInvalid =
     js ''URL de issue de GitHub inv'' @ [0xE1]
     @ js ''lido. Formato esperado: https://github.com/owner/repo/issues/123''"

text \<open>The three groups take part in every match of the pattern, so \<open>m[1]\<close>, \<open>m[2]\<close>
  and \<open>m[3]\<close> are strings; the last branch is there for totality and is never taken.\<close>

definition parseGitHubIssueUrl :: "jsstring \<Rightarrow> GitHubIssueRef outcome" where
  "parseGitHubIssueUrl url =
     (case match githubIssuePattern url of
        None \<Rightarrow> Throws (McpError InvalidParams githubIssueUrlInvalid)
      | Some m \<Rightarrow>
          (case (m 1, m 2, m 3) of
             (Some m1, Some m2, Some m3) \<Rightarrow>
               Returns \<lparr>owner = m1, repo = m2, issueNumber = parseInt10 m3\<rparr>
           | _ \<Rightarrow> Throws TypeError))"

subsection \<open>GitLab\<close>

record GitLabIssueRef =
  gitlabUrl :: jsstring
  projectId :: jsstring
  issueIid :: nat

definition gitlabIssuePattern :: regexp where
  "gitlabIssuePattern =
     plain (seqs [Bol, str (js ''http''), Opt (str (js ''s'')), str (js ''://''),
                  Group 1 (Plus True notSlash), str (js ''/''),
                  Group 2 (Plus True Dot), str (js ''/-/issues/''),
                  Group 3 (Plus True digit)])"

definition gitlabIssueUrlInvalid :: jsstring where
  "gitlabIssueUrlInvalid =
     js ''URL de issue de GitLab inv'' @ [0xE1]
     @ js ''lido. Formato esperado: https://gitlab.com/namespace/project/-/issues/123''"

text \<open>
  \<open>new URL(baseUrl).hostname\<close> belongs to the platform. It is modelled for an absolute
  \<open>http\<close> or \<open>https\<close> URL written in lower case, \<open>scheme://[userinfo@]host[:port]\<close>
  and then nothing, or a path, query or fragment: the host, in lower case. For
  anything else the model says None, which \<open>parseGitLabUrl\<close> turns into the TypeError
  of \<open>new URL\<close>; the URL parser of the platform accepts more than that.
\<close>

definition afterLast :: "jschar \<Rightarrow> jsstring \<Rightarrow> jsstring" where
  "afterLast c s = rev (takeWhile (\<lambda>x. x \<noteq> c) (rev s))"

definition hostOfAuthority :: "jsstring \<Rightarrow> jsstring option" where
  "hostOfAuthority rest =
     (let authority = takeWhile (\<lambda>c. c \<noteq> 0x2F \<and> c \<noteq> 0x3F \<and> c \<noteq> 0x23 \<and> c \<noteq> 0x5C) rest;
          host = takeWhile (\<lambda>c. c \<noteq> 0x3A) (afterLast 0x40 authority)
      in if host = [] then None else Some (toLowerCase host))"

definition urlHostname :: "jsstring \<Rightarrow> jsstring option" where
  "urlHostname u =
     (if startsWith u (js ''https://'') then hostOfAuthority (drop 8 u)
      else if startsWith u (js ''http://'') then hostOfAuthority (drop 7 u)
      else None)"

definition parseGitLabUrl :: "jsstring \<Rightarrow> jsstring \<Rightarrow> GitLabIssueRef outcome" where
  "parseGitLabUrl baseUrl url =
     (case match gitlabIssuePattern url of
        None \<Rightarrow> Throws (McpError InvalidParams gitlabIssueUrlInvalid)
      | Some m \<Rightarrow>
          (case (m 1, m 2, m 3) of
             (Some domain, Some projectPath, Some issueIidText) \<Rightarrow>
               (case urlHostname baseUrl of
                  None \<Rightarrow> Throws TypeError
                | Some currentHost \<Rightarrow>
                    Returns \<lparr>gitlabUrl = (if domain \<noteq> currentHost then js ''https://'' @ domain
                                          else baseUrl),
                             projectId = projectPath,
                             issueIid = parseInt10 issueIidText\<rparr>)
           | _ \<Rightarrow> Throws TypeError))"

section \<open>The MongoDB tool\<close>

text \<open>
  The handler talks to the database through the driver. Each call of the driver is an
  entry of a trace; what the driver answers is a parameter: \<open>Inl message\<close> when the
  call throws an error with that message, \<open>Inr result\<close> otherwise. \<open>'j\<close> is the type of
  the JSON objects of the arguments, \<open>emptyObject\<close> is \<open>{}\<close>, and \<open>stringify\<close> is
  \<open>JSON.stringify\<close> on a result. \<open>client.db\<close> and \<open>db.collection\<close> only build handles;
  their names travel with the operation.
\<close>

record 'j MongoArgs =
  uri :: jsstring
  database :: jsstring
  collection :: jsstring
  operation :: jsstring
  filter_arg :: "'j option"
  update_arg :: "'j option"
  options_arg :: "'j option"
  document_arg :: "'j option"

datatype 'j dbCall =
    Connect jsstring
  | FindOne jsstring jsstring 'j
  | FindToArray jsstring jsstring 'j 'j
  | InsertOne jsstring jsstring 'j
  | UpdateMany jsstring jsstring 'j 'j 'j
  | DeleteMany jsstring jsstring 'j 'j
  | CloseClient

record ('j, 'r) mongoEnv =
  driver :: "'j dbCall \<Rightarrow> jsstring + 'r"
  emptyObject :: 'j
  stringify :: "'r \<Rightarrow> jsstring"

text \<open>\<open>args.filter || {}\<close>\<close>

definition orEmpty :: "('j, 'r) mongoEnv \<Rightarrow> 'j option \<Rightarrow> 'j" where
  "orEmpty env v = (case v of None \<Rightarrow> emptyObject env | Some x \<Rightarrow> x)"

text \<open>The \<open>switch\<close> on \<open>(args.operation || '').toLowerCase()\<close>: the driver call of each
  \<open>case\<close>, None for \<open>default\<close>.\<close>

definition operationCall :: "('j, 'r) mongoEnv \<Rightarrow> 'j MongoArgs \<Rightarrow> 'j dbCall option" where
  "operationCall env args =
     (let op = toLowerCase (operation args); db = database args; col = collection args
      in if op = js ''find_one'' then Some (FindOne db col (orEmpty env (filter_arg args)))
         else if op = js ''find_many''
           then Some (FindToArray db col (orEmpty env (filter_arg args)) (orEmpty env (options_arg args)))
         else if op = js ''insert_one'' then Some (InsertOne db col (orEmpty env (document_arg args)))
         else if op = js ''update_many''
           then Some (UpdateMany db col (orEmpty env (filter_arg args)) (orEmpty env (update_arg args))
                        (orEmpty env (options_arg args)))
         else if op = js ''delete_many''
           then Some (DeleteMany db col (orEmpty env (filter_arg args)) (orEmpty env (options_arg args)))
         else None)"

definition unsupportedOperation :: jsstring where
  "unsupportedOperation = js ''Operaci'' @ [0xF3] @ js ''n no soportada''"

text \<open>The body of the \<open>try\<close> block: what it returns or throws, and the driver calls made.\<close>

definition mongoTry :: "('j, 'r) mongoEnv \<Rightarrow> 'j MongoArgs \<Rightarrow> jsstring outcome \<times> 'j dbCall list" where
  "mongoTry env args =
     (case driver env (Connect (uri args)) of
        Inl message \<Rightarrow> (Throws (OtherError message), [Connect (uri args)])
      | Inr connected \<Rightarrow>
          (case operationCall env args of
             None \<Rightarrow> (Throws (McpError InvalidParams unsupportedOperation), [Connect (uri args)])
           | Some call \<Rightarrow>
               (case driver env call of
                  Inl message \<Rightarrow> (Throws (OtherError message), [Connect (uri args), call])
                | Inr result \<Rightarrow>
                    (case driver env CloseClient of
                       Inl message \<Rightarrow>
                         (Throws (OtherError message), [Connect (uri args), call, CloseClient])
                     | Inr closed \<Rightarrow>
                         (Returns (stringify env result),
                          [Connect (uri args), call, CloseClient])))))"

text \<open>\<open>error?.message || String(error)\<close>. The constructor of McpError in the SDK puts the
  numeric code in front of its message; that prefix is left out.\<close>

fun messageOf :: "thrown \<Rightarrow> jsstring" where
  "messageOf (McpError code message) = message"
| "messageOf TypeError = js ''TypeError''"
| "messageOf (OtherError message) = message"

text \<open>\<open>catch (error) { throw new McpError(ErrorCode.InternalError, ...) }\<close> around the
  whole body.\<close>

definition mongoHandler :: "('j, 'r) mongoEnv \<Rightarrow> 'j MongoArgs \<Rightarrow> jsstring outcome \<times> 'j dbCall list" where
  "mongoHandler env args =
     (case mongoTry env args of
        (Throws error, calls) \<Rightarrow> (Throws (McpError InternalError (messageOf error)), calls)
      | (result, calls) \<Rightarrow> (result, calls))"

section \<open>What a pattern can match\<close>

text \<open>
  The words a pattern can consume, whatever the backtracking does: the usual language
  of a regular expression, with \<open>^\<close> and \<open>$\<close> consuming nothing. It is the yardstick
  for the matcher in the proofs below.
\<close>

fun lang :: "regexp \<Rightarrow> regex \<Rightarrow> jsstring \<Rightarrow> bool" where
  "lang re Eps w = (w = [])"
| "lang re (Chr a) w = (\<exists>c. w = [c] \<and> sameChar (ignoreCase re) a c)"
| "lang re Dot w = (\<exists>c. w = [c] \<and> dotMatches re c)"
| "lang re (Class neg items) w = (\<exists>c. w = [c] \<and> classMatches re neg items c)"
| "lang re Bol w = (w = [])"
| "lang re Eol w = (w = [])"
| "lang re (Seq a b) w = (\<exists>u v. w = u @ v \<and> lang re a u \<and> lang re b v)"
| "lang re (Alt a b) w = (lang re a w \<or> lang re b w)"
| "lang re (Opt r) w = (w = [] \<or> lang re r w)"
| "lang re (Star greedy r) w = (\<exists>ws. w = concat ws \<and> list_all (lang re r) ws)"
| "lang re (Plus greedy r) w = (\<exists>ws. ws \<noteq> [] \<and> w = concat ws \<and> list_all (lang re r) ws)"
| "lang re (Group i r) w = lang re r w"

fun langStack :: "regexp \<Rightarrow> frame list \<Rightarrow> jsstring \<Rightarrow> bool" where
  "langStack re [] w = (w = [])"
| "langStack re (Re r # k) w = (\<exists>u v. w = u @ v \<and> lang re r u \<and> langStack re k v)"
| "langStack re (Progress l # k) w = langStack re k w"
| "langStack re (Close i r0 # k) w = langStack re k w"

text \<open>The least number of code units a match of the pattern consumes.\<close>

fun minLength :: "regex \<Rightarrow> nat" where
  "minLength Eps = 0"
| "minLength (Chr a) = 1"
| "minLength Dot = 1"
| "minLength (Class neg items) = 1"
| "minLength Bol = 0"
| "minLength Eol = 0"
| "minLength (Seq a b) = minLength a + minLength b"
| "minLength (Alt a b) = min (minLength a) (minLength b)"
| "minLength (Opt r) = 0"
| "minLength (Star greedy r) = 0"
| "minLength (Plus greedy r) = minLength r"
| "minLength (Group i r) = minLength r"

text \<open>Group \<open>i\<close> takes part in every match of the pattern.\<close>

fun setsGroup :: "nat \<Rightarrow> regex \<Rightarrow> bool" where
  "setsGroup i (Seq a b) = (setsGroup i a \<or> setsGroup i b)"
| "setsGroup i (Alt a b) = (setsGroup i a \<and> setsGroup i b)"
| "setsGroup i (Plus greedy r) = setsGroup i r"
| "setsGroup i (Group j r) = (j = i \<or> setsGroup i r)"
| "setsGroup i r = False"

fun frameSetsGroup :: "nat \<Rightarrow> frame \<Rightarrow> bool" where
  "frameSetsGroup i (Re r) = setsGroup i r"
| "frameSetsGroup i (Progress l) = False"
| "frameSetsGroup i (Close j r0) = (j = i)"

section \<open>Shapes of a GitHub issue link\<close>

text \<open>
  The shape of the specification, in its words:
  \<open>https://github.com/owner/repo/issues/{n}\<close>, with a number for \<open>{n}\<close>.
\<close>

definition specGitHubIssueShape :: "jsstring \<Rightarrow> bool" where
  "specGitHubIssueShape url \<longleftrightarrow>
     (\<exists>ownerName repoName n.
        url = js ''https://github.com/'' @ ownerName @ js ''/'' @ repoName @ js ''/issues/'' @ n
        \<and> ownerName \<noteq> [] \<and> repoName \<noteq> [] \<and> n \<noteq> [] \<and> list_all isDigit n)"

text \<open>
  What the pattern of \<open>parseGitHubIssueUrl\<close> asks for: the link begins with \<open>http\<close> or
  \<open>https\<close>, \<open>://github.com/\<close>, an owner and a repository without a slash, \<open>/issues/\<close>
  and at least one digit; anything may follow.
\<close>

definition githubIssueLink :: "jsstring \<Rightarrow> bool" where
  "githubIssueLink url \<longleftrightarrow>
     (\<exists>scheme ownerName repoName n rest.
        url = scheme @ js ''://github.com/'' @ ownerName @ js ''/'' @ repoName @ js ''/issues/''
              @ n @ rest
        \<and> (scheme = js ''http'' \<or> scheme = js ''https'')
        \<and> ownerName \<noteq> [] \<and> 0x2F \<notin> set ownerName
        \<and> repoName \<noteq> [] \<and> 0x2F \<notin> set repoName
        \<and> n \<noteq> [] \<and> list_all isDigit n)"

section \<open>Concrete inputs\<close>

text \<open>A call of \<open>mongo_query\<close> with the operation \<open>drop\<close>, against a driver whose every
  call succeeds and answers \<open>{}\<close>.\<close>

definition dropArgs :: "unit MongoArgs" where
  "dropArgs =
     \<lparr>uri = js ''mongodb://localhost:27017'', database = js ''app'', collection = js ''users'',
      operation = js ''drop'', filter_arg = None, update_arg = None, options_arg = None,
      document_arg = None\<rparr>"

definition healthyEnv :: "(unit, jsstring) mongoEnv" where
  "healthyEnv = \<lparr>driver = (\<lambda>call. Inr (js ''{}'')), emptyObject = (), stringify = (\<lambda>r. r)\<rparr>"

text \<open>Two issues without a description: a title with the keyword \<open>login\<close>, and a title
  with no keyword at all.\<close>

definition loginIssue :: IssueData where
  "loginIssue =
     \<lparr>title = js ''Login'', description = [], labels = [], assignees = [], author = js ''ana'',
      state = js ''opened'', created_at = js ''2024-01-01T00:00:00Z'',
      updated_at = js ''2024-01-01T00:00:00Z'', web_url = js ''https://gitlab.com/ns/proj/-/issues/1'',
      project_name = js ''proj'', iid = 1\<rparr>"

definition typoIssue :: IssueData where
  "typoIssue = loginIssue\<lparr>title := js ''Fix typo''\<rparr>"


text \<open>Five comments as the GitHub tool passes them: \<open>user\<close>, \<open>created_at\<close> and \<open>body\<close>,
  and no \<open>author\<close>. And the analysis of \<open>loginIssue\<close>.\<close>

definition githubComment :: "jsstring \<Rightarrow> Comment" where
  "githubComment content =
     \<lparr>commentAuthor = None, createdAt = js ''2024-01-02T10:00:00Z'', body = content\<rparr>"

definition githubComments :: "Comment list" where
  "githubComments =
     [githubComment (js ''first''), githubComment (js ''second''), githubComment (js ''third''),
      githubComment (js ''fourth''), githubComment (js ''fifth'')]"

definition loginAnalysis :: QAAnalysis where
  "loginAnalysis =
     \<lparr>requirements = [js ''Implementar: Login''], acceptanceCriteria = [],
      testingSuggestions = universalSuggestions, riskAreas = [], testTypes = baselineTestTypes\<rparr>"

section \<open>Properties\<close>

subsection \<open>Arrays through a Set\<close>

lemma set_setInsertAll: "set (setInsertAll seen xs) = set seen \<union> set xs"
  by (induction xs arbitrary: seen) auto

lemma distinct_setInsertAll: "distinct seen \<Longrightarrow> distinct (setInsertAll seen xs)"
  by (induction xs arbitrary: seen) auto

text \<open>What survives is exactly the first occurrences, in their order: the elements of
  \<open>xs\<close> at the positions \<open>i\<close> whose element is not already among the first \<open>i\<close>.\<close>

lemma setInsertAll_firsts:
  "setInsertAll seen xs =
     seen @ nths xs {i. i < length xs \<and> xs ! i \<notin> set seen \<union> set (take i xs)}"
proof (induction xs arbitrary: seen)
  case Nil
  then show ?case by simp
next
  case (Cons x xs)
  define S where "S = {i. i < length (x # xs) \<and> (x # xs) ! i \<notin> set seen \<union> set (take i (x # xs))}"
  have split: "nths (x # xs) S = (if 0 \<in> S then [x] else []) @ nths xs {j. Suc j \<in> S}"
    by (rule nths_Cons)
  show ?case
  proof (cases "x \<in> set seen")
    case True
    have "{j. Suc j \<in> S} = {i. i < length xs \<and> xs ! i \<notin> set seen \<union> set (take i xs)}"
      using True by (auto simp: S_def)
    moreover have "0 \<notin> S"
      using True by (simp add: S_def)
    ultimately have "nths (x # xs) S = nths xs {i. i < length xs \<and> xs ! i \<notin> set seen \<union> set (take i xs)}"
      using split by simp
    with True Cons.IH [of seen] show ?thesis
      unfolding S_def by simp
  next
    case False
    have "{j. Suc j \<in> S} = {i. i < length xs \<and> xs ! i \<notin> set (seen @ [x]) \<union> set (take i xs)}"
      by (auto simp: S_def)
    moreover have "0 \<in> S"
      using False by (simp add: S_def)
    ultimately have "nths (x # xs) S =
        x # nths xs {i. i < length xs \<and> xs ! i \<notin> set (seen @ [x]) \<union> set (take i xs)}"
      using split by simp
    with False Cons.IH [of "seen @ [x]"] show ?thesis
      unfolding S_def by simp
  qed
qed

lemma set_dedupe: "set (dedupe xs) = set xs"
  by (simp add: dedupe_def set_setInsertAll)

lemma distinct_dedupe: "distinct (dedupe xs)"
  by (simp add: dedupe_def distinct_setInsertAll)

lemma dedupe_firsts:
  "dedupe xs = nths xs {i. i < length xs \<and> xs ! i \<notin> set (take i xs)}"
  by (simp add: dedupe_def setInsertAll_firsts)

subsection \<open>Testing suggestions\<close>

text \<open>
  C4. For every issue and every \<open>fullText\<close>, the list of \<open>generateTestingSuggestions\<close>
  holds each of the four universal suggestions (regression, browsers and devices,
  performance under load, error logs), holds no string twice, and is the array of
  pushed suggestions cut down to the first occurrence of each string, in the order
  of the array.
\<close>

theorem generateTestingSuggestions_universal_distinct:
  "js ''Verificar que el cambio no rompe funcionalidad existente''
     \<in> set (generateTestingSuggestions issueData fullText)
   \<and> js ''Probar en diferentes navegadores/dispositivos''
     \<in> set (generateTestingSuggestions issueData fullText)
   \<and> js ''Validar performance bajo carga normal''
     \<in> set (generateTestingSuggestions issueData fullText)
   \<and> js ''Revisar logs de errores durante las pruebas''
     \<in> set (generateTestingSuggestions issueData fullText)
   \<and> distinct (generateTestingSuggestions issueData fullText)
   \<and> generateTestingSuggestions issueData fullText
     = nths (pushedSuggestions fullText)
         {i. i < length (pushedSuggestions fullText)
             \<and> pushedSuggestions fullText ! i \<notin> set (take i (pushedSuggestions fullText))}"
proof -
  have "set universalSuggestions \<subseteq> set (pushedSuggestions fullText)"
    by (simp add: pushedSuggestions_def)
  then have "set universalSuggestions \<subseteq> set (generateTestingSuggestions issueData fullText)"
    by (simp add: generateTestingSuggestions_def set_dedupe)
  moreover have "distinct (generateTestingSuggestions issueData fullText)"
    by (simp add: generateTestingSuggestions_def distinct_dedupe)
  moreover have "generateTestingSuggestions issueData fullText
     = nths (pushedSuggestions fullText)
         {i. i < length (pushedSuggestions fullText)
             \<and> pushedSuggestions fullText ! i \<notin> set (take i (pushedSuggestions fullText))}"
    unfolding generateTestingSuggestions_def by (rule dedupe_firsts)
  ultimately show ?thesis
    by (simp add: universalSuggestions_def)
qed

subsection \<open>Test types\<close>

text \<open>
  C5. For every \<open>fullText\<close> and every label list, the list of \<open>determineTestTypes\<close>
  holds \<open>Testing Funcional\<close> and \<open>Testing de Regresi\<close>\<open>o\<close>\<open>n\<close> (with the accent,
  code unit \<open>0xF3\<close>), and holds no string twice.
\<close>

theorem determineTestTypes_baseline_distinct:
  "js ''Testing Funcional'' \<in> set (determineTestTypes fullText labelList)
   \<and> js ''Testing de Regresi'' @ [0xF3] @ js ''n'' \<in> set (determineTestTypes fullText labelList)
   \<and> distinct (determineTestTypes fullText labelList)"
proof -
  have "set baselineTestTypes \<subseteq> set (determineTestTypes fullText labelList)"
    by (simp add: determineTestTypes_def set_dedupe)
  moreover have "distinct (determineTestTypes fullText labelList)"
    by (simp add: determineTestTypes_def distinct_dedupe)
  ultimately show ?thesis
    by (simp add: baselineTestTypes_def)
qed

subsection \<open>Risk areas\<close>

lemma highPriorityRisk_fresh: "highPriorityRisk \<notin> snd ` set riskIndicators"
  by (simp add: highPriorityRisk_def riskIndicators_def js_def)

text \<open>
  C6. For every \<open>fullText\<close> and every label list, the high-priority message is in the
  output of \<open>identifyRiskAreas\<close> if and only if some label, in lower case, is one of
  \<open>critical\<close>, \<open>cr\<close>\<open>i\<close>\<open>tico\<close> (with the accent, code unit \<open>0xED\<close>), \<open>high-priority\<close>,
  \<open>security\<close>, \<open>bug\<close>.
\<close>

theorem identifyRiskAreas_high_priority_iff:
  "js ''Alta prioridad - requiere testing completo antes de release''
     \<in> set (identifyRiskAreas fullText labelList)
   \<longleftrightarrow> (\<exists>label \<in> set labelList.
          toLowerCase label \<in> {js ''critical'', js ''cr'' @ [0xED] @ js ''tico'', js ''high-priority'',
                                js ''security'', js ''bug''})"
proof -
  have "set (map snd (filter (\<lambda>(pattern, risk). test pattern fullText) riskIndicators))
          \<subseteq> snd ` set riskIndicators"
    by auto
  with highPriorityRisk_fresh
  have "highPriorityRisk
          \<notin> set (map snd (filter (\<lambda>(pattern, risk). test pattern fullText) riskIndicators))"
    by blast
  moreover have "set criticalLabels
      = {js ''critical'', js ''cr'' @ [0xED] @ js ''tico'', js ''high-priority'', js ''security'', js ''bug''}"
    by (simp add: criticalLabels_def)
  moreover have "highPriorityRisk = js ''Alta prioridad - requiere testing completo antes de release''"
    by (simp add: highPriorityRisk_def)
  ultimately show ?thesis
    unfolding identifyRiskAreas_def list_ex_iff by (simp del: set_map)
qed

text \<open>The label \<open>BUG\<close> brings the message in, whatever the text; the label \<open>feature\<close> alone,
  on a text about nothing risky, does not.\<close>

theorem identifyRiskAreas_high_priority_iff_witness:
  "js ''Alta prioridad - requiere testing completo antes de release''
     \<in> set (identifyRiskAreas (js ''fix typo '') [js ''docs'', js ''BUG''])
   \<and> js ''Alta prioridad - requiere testing completo antes de release''
     \<notin> set (identifyRiskAreas (js ''fix typo '') [js ''feature''])"
  using identifyRiskAreas_high_priority_iff [of "js ''fix typo ''" "[js ''docs'', js ''BUG'']"]
    identifyRiskAreas_high_priority_iff [of "js ''fix typo ''" "[js ''feature'']"]
  by (simp add: toLowerCase_def lowerChar_def js_def)

subsection \<open>The comments of the report\<close>

lemma showNat_digit: "n < 10 \<Longrightarrow> showNat n = [48 + n]"
  by (simp add: showNat.simps)

text \<open>
  On comments that carry \<open>author.name\<close>, as the notes of GitLab do: with five comments
  the report holds the heading with the count 5, the first three comments (author,
  date, body) separated by rules, and the note that only three are shown, and nothing
  of the fourth and fifth comment; with two comments it holds both and no note; with
  no comment the head of the report is followed directly by the footer.
\<close>

lemma formatQAAnalysis_comments_rendered:
  assumes "commentAuthor c1 = Some a1" and "commentAuthor c2 = Some a2"
    and "commentAuthor c3 = Some a3"
  shows "formatQAAnalysis localDate issueData qaAnalysis [c1, c2, c3, c4, c5]
     = Returns (reportHead issueData qaAnalysis
       @ js ''## '' @ [0xD83D, 0xDCAC] @ js '' Comentarios Relevantes (5)'' @ [10]
       @ js ''**'' @ a1 @ js ''** ('' @ localDate (createdAt c1) @ js ''):'' @ [10] @ body c1 @ [10]
       @ [10] @ js ''---'' @ [10]
       @ js ''**'' @ a2 @ js ''** ('' @ localDate (createdAt c2) @ js ''):'' @ [10] @ body c2 @ [10]
       @ [10] @ js ''---'' @ [10]
       @ js ''**'' @ a3 @ js ''** ('' @ localDate (createdAt c3) @ js ''):'' @ [10] @ body c3 @ [10]
       @ [10] @ js ''*(Mostrando solo los 3 comentarios m'' @ [0xE1] @ js ''s recientes)*''
       @ reportFooter)"
    and "formatQAAnalysis localDate issueData qaAnalysis [c1, c2]
     = Returns (reportHead issueData qaAnalysis
       @ js ''## '' @ [0xD83D, 0xDCAC] @ js '' Comentarios Relevantes (2)'' @ [10]
       @ js ''**'' @ a1 @ js ''** ('' @ localDate (createdAt c1) @ js ''):'' @ [10] @ body c1 @ [10]
       @ [10] @ js ''---'' @ [10]
       @ js ''**'' @ a2 @ js ''** ('' @ localDate (createdAt c2) @ js ''):'' @ [10] @ body c2 @ [10]
       @ reportFooter)"
    and "formatQAAnalysis localDate issueData qaAnalysis []
     = Returns (reportHead issueData qaAnalysis @ reportFooter)"
  using assms
  by (simp_all add: formatQAAnalysis_def commentsSection_def renderComment_def commentsHeading_def
      commentsRule_def onlyThreeNote_def showNat_digit js_def)

lemma mapRender_author_missing:
  "list_ex (\<lambda>comment. commentAuthor comment = None) comments \<Longrightarrow>
   mapRender localDate comments = Throws TypeError"
proof (induction comments)
  case Nil
  then show ?case by simp
next
  case (Cons comment others)
  show ?case
  proof (cases "commentAuthor comment")
    case None
    then show ?thesis by (simp add: renderComment_def)
  next
    case (Some authorName)
    with Cons.prems have "list_ex (\<lambda>comment. commentAuthor comment = None) others" by simp
    from Cons.IH [OF this] Some show ?thesis by (simp add: renderComment_def)
  qed
qed

text \<open>
  C7. The claim is what the formatter is meant to do, and the code does not do it on
  every comment list it receives: when one of the first three comments has no
  \<open>author\<close>, as every comment that the GitHub tool passes, \<open>comment.author.name\<close>
  throws a TypeError and no report is made, whatever the issue and the analysis:
  the first three comments are not rendered and there is no note.
\<close>

theorem formatQAAnalysis_author_missing:
  assumes "list_ex (\<lambda>comment. commentAuthor comment = None) (take 3 comments)"
  shows "formatQAAnalysis localDate issueData qaAnalysis comments = Throws TypeError"
proof -
  from assms have "comments \<noteq> []" by auto
  with mapRender_author_missing [OF assms, of localDate] show ?thesis
    by (simp add: formatQAAnalysis_def commentsSection_def)
qed

text \<open>Five comments of a GitHub issue.\<close>

theorem formatQAAnalysis_author_missing_witness:
  "length githubComments = 5
   \<and> formatQAAnalysis (\<lambda>date. date) loginIssue loginAnalysis githubComments = Throws TypeError"
  using formatQAAnalysis_author_missing [of githubComments "\<lambda>date. date" loginIssue loginAnalysis]
  by (simp add: githubComments_def githubComment_def)

subsection \<open>Evaluating the patterns\<close>

lemmas regex_eval =
  js_def separators_def capitalLetter_def notSlash_def digit_def plain_def
  sameChar_def canonicalize_def classMatches_def dotMatches_def
  isLineTerminator_def isWhiteSpace_def isDigit_def trim_def match_def test_def

text \<open>
  C8. With the base URL \<open>https://gitlab.com\<close>, the link
  \<open>https://gitlab.example.org/ns/proj/-/issues/42\<close> parses to the base URL
  \<open>https://gitlab.example.org\<close> (the host of the link, which is not the host of the
  base URL), the project \<open>ns/proj\<close> and the issue 42.
\<close>

theorem parseGitLabUrl_other_host:
  "parseGitLabUrl (js ''https://gitlab.com'') (js ''https://gitlab.example.org/ns/proj/-/issues/42'')
     = Returns \<lparr>gitlabUrl = js ''https://gitlab.example.org'', projectId = js ''ns/proj'',
                issueIid = 42\<rparr>"
  by (simp add: parseGitLabUrl_def gitlabIssuePattern_def urlHostname_def hostOfAuthority_def
      afterLast_def toLowerCase_def lowerChar_def parseInt10_def regex_eval)

text \<open>
  C10. The third scan of \<open>extractAcceptanceCriteria\<close> takes a hyphen in the middle of a
  line for a bullet: the one-line description \<open>the flow - covers the main case\<close> has
  no line that starts with a bullet, and its criteria are the text after the hyphen.
\<close>

theorem extractAcceptanceCriteria_midline_hyphen:
  "extractAcceptanceCriteria (issueData\<lparr>description := js ''the flow - covers the main case''\<rparr>)
     = Returns [js ''covers the main case'']"
  by (simp add: extractAcceptanceCriteria_def criteriaPatterns_def criteriaPattern1_def
      criteriaPattern2_def criteriaPattern3_def execLoop.simps regex_eval)

subsection \<open>An unsupported MongoDB operation\<close>

text \<open>
  C2. The \<open>default\<close> branch throws the invalid-parameters error inside the \<open>try\<close>
  block, and the \<open>catch\<close> of the same function wraps whatever was thrown into an
  internal error. So for every call whose operation, in lower case, is none of the
  five names, once the connection is made the handler fails with the internal error
  that carries the message of the invalid-parameters one; the only driver call is the
  connection, which is not closed.
\<close>

theorem mongoHandler_unsupported_is_internal:
  assumes "driver env (Connect (uri args)) = Inr connected"
    and "toLowerCase (operation args)
           \<notin> {js ''find_one'', js ''find_many'', js ''insert_one'', js ''update_many'',
               js ''delete_many''}"
  shows "mongoHandler env args
           = (Throws (McpError InternalError (js ''Operaci'' @ [0xF3] @ js ''n no soportada'')),
              [Connect (uri args)])"
  using assms
  by (simp add: mongoHandler_def mongoTry_def operationCall_def unsupportedOperation_def)

theorem mongoHandler_unsupported_is_internal_witness:
  "mongoHandler healthyEnv dropArgs
     = (Throws (McpError InternalError (js ''Operaci'' @ [0xF3] @ js ''n no soportada'')),
        [Connect (js ''mongodb://localhost:27017'')])"
  using mongoHandler_unsupported_is_internal [of healthyEnv dropArgs]
  by (simp add: healthyEnv_def dropArgs_def toLowerCase_def lowerChar_def js_def)

text \<open>The operation is compared in lower case: \<open>FIND_ONE\<close> runs \<open>findOne\<close>.\<close>

lemma mongoHandler_upper_case_operation:
  "mongoHandler healthyEnv (dropArgs\<lparr>operation := js ''FIND_ONE''\<rparr>)
     = (Returns (js ''{}''),
        [Connect (js ''mongodb://localhost:27017''), FindOne (js ''app'') (js ''users'') (),
         CloseClient])"
  by (simp add: mongoHandler_def mongoTry_def operationCall_def orEmpty_def healthyEnv_def
      dropArgs_def toLowerCase_def lowerChar_def js_def)

subsection \<open>The matcher against the language of the pattern\<close>

lemma lang_Star_step: "lang re r u \<Longrightarrow> lang re (Star g r) v \<Longrightarrow> lang re (Star g r) (u @ v)"
proof -
  assume u: "lang re r u" and "lang re (Star g r) v"
  then obtain ws where "v = concat ws" "list_all (lang re r) ws" by auto
  with u have "u @ v = concat (u # ws) \<and> list_all (lang re r) (u # ws)" by simp
  then show ?thesis unfolding lang.simps by blast
qed

lemma lang_Plus_step: "lang re r u \<Longrightarrow> lang re (Star g r) v \<Longrightarrow> lang re (Plus g r) (u @ v)"
proof -
  assume u: "lang re r u" and "lang re (Star g r) v"
  then obtain ws where "v = concat ws" "list_all (lang re r) ws" by auto
  with u have "u # ws \<noteq> [] \<and> u @ v = concat (u # ws) \<and> list_all (lang re r) (u # ws)" by simp
  then show ?thesis unfolding lang.simps by blast
qed

lemma langStack_Re: "lang re r u \<Longrightarrow> langStack re k v \<Longrightarrow> langStack re (Re r # k) (u @ v)"
  by auto

lemma langStack_ReE:
  assumes "langStack re (Re r # k) w"
  obtains u v where "w = u @ v" "lang re r u" "langStack re k v"
  using assms by auto


lemma langStack_Eps: "langStack re k w \<Longrightarrow> langStack re (Re Eps # k) w"
  by simp

lemma langStack_Bol: "langStack re k w \<Longrightarrow> langStack re (Re Bol # k) w"
  by simp

lemma langStack_Eol: "langStack re k w \<Longrightarrow> langStack re (Re Eol # k) w"
  by simp

lemma langStack_Seq: "langStack re (Re a # Re b # k) w \<Longrightarrow> langStack re (Re (Seq a b) # k) w"
proof -
  assume "langStack re (Re a # Re b # k) w"
  then obtain u v where 1: "w = u @ v" "lang re a u" "langStack re (Re b # k) v"
    by (rule langStack_ReE)
  from 1(3) obtain v1 v2 where 2: "v = v1 @ v2" "lang re b v1" "langStack re k v2"
    by (rule langStack_ReE)
  from 1 2 have "lang re (Seq a b) (u @ v1)" by auto
  from langStack_Re [OF this 2(3)] 1 2 show ?thesis by simp
qed

lemma langStack_Alt1: "langStack re (Re a # k) w \<Longrightarrow> langStack re (Re (Alt a b) # k) w"
  by auto

lemma langStack_Alt2: "langStack re (Re b # k) w \<Longrightarrow> langStack re (Re (Alt a b) # k) w"
  by auto

lemma langStack_Opt_body:
  "langStack re (Re r # Progress l # k) w \<Longrightarrow> langStack re (Re (Opt r) # k) w"
  by auto

lemma langStack_Opt_skip: "langStack re k w \<Longrightarrow> langStack re (Re (Opt r) # k) w"
  using langStack_Re [of re "Opt r" "[]" k w] by simp

lemma langStack_Star_skip: "langStack re k w \<Longrightarrow> langStack re (Re (Star g r) # k) w"
proof -
  assume "langStack re k w"
  moreover have "lang re (Star g r) []"
    by (auto intro: exI [of _ "[]"])
  ultimately show ?thesis
    using langStack_Re [of re "Star g r" "[]" k w] by simp
qed

lemma langStack_Star_body:
  "langStack re (Re r # Progress l # Re (Star g r) # k) w \<Longrightarrow> langStack re (Re (Star g r) # k) w"
proof -
  assume "langStack re (Re r # Progress l # Re (Star g r) # k) w"
  then obtain u v where 1: "w = u @ v" "lang re r u" "langStack re (Progress l # Re (Star g r) # k) v"
    by (rule langStack_ReE)
  from 1(3) have "langStack re (Re (Star g r) # k) v" by simp
  then obtain v1 v2 where 2: "v = v1 @ v2" "lang re (Star g r) v1" "langStack re k v2"
    by (rule langStack_ReE)
  from lang_Star_step [OF 1(2) 2(2)] have "lang re (Star g r) (u @ v1)" .
  from langStack_Re [OF this 2(3)] 1 2 show ?thesis by simp
qed

lemma langStack_Plus:
  "langStack re (Re r # Re (Star g r) # k) w \<Longrightarrow> langStack re (Re (Plus g r) # k) w"
proof -
  assume "langStack re (Re r # Re (Star g r) # k) w"
  then obtain u v where 1: "w = u @ v" "lang re r u" "langStack re (Re (Star g r) # k) v"
    by (rule langStack_ReE)
  from 1(3) obtain v1 v2 where 2: "v = v1 @ v2" "lang re (Star g r) v1" "langStack re k v2"
    by (rule langStack_ReE)
  from lang_Plus_step [OF 1(2) 2(2)] have "lang re (Plus g r) (u @ v1)" .
  from langStack_Re [OF this 2(3)] 1 2 show ?thesis by simp
qed

lemma langStack_Group:
  "langStack re (Re r # Close i r0 # k) w \<Longrightarrow> langStack re (Re (Group i r) # k) w"
  by auto

lemma matcher_sound:
  "matcher re n k rest caps = Some (rest', caps') \<Longrightarrow> \<exists>w. rest = w @ rest' \<and> langStack re k w"
proof (induction re n k rest caps arbitrary: rest' caps' rule: matcher.induct)
  case (1 re n rest caps)
  then show ?case by simp
next
  case (2 re n k rest caps)
  then obtain w where "rest = w @ rest'" "langStack re k w" by auto
  then show ?case using langStack_Eps by blast
next
  case (3 re n a k rest caps)
  from "3.prems" obtain c cs where rest: "rest = c # cs" and c: "sameChar (ignoreCase re) a c"
    and m: "matcher re n k cs caps = Some (rest', caps')"
    by (auto split: list.splits if_splits)
  from "3.IH" [OF rest c m] obtain w where w: "cs = w @ rest'" "langStack re k w" by auto
  from c have "lang re (Chr a) [c]" by simp
  from langStack_Re [OF this w(2)] rest w(1) show ?case by auto
next
  case (4 re n k rest caps)
  from "4.prems" obtain c cs where rest: "rest = c # cs" and c: "dotMatches re c"
    and m: "matcher re n k cs caps = Some (rest', caps')"
    by (auto split: list.splits if_splits)
  from "4.IH" [OF rest c m] obtain w where w: "cs = w @ rest'" "langStack re k w" by auto
  from c have "lang re Dot [c]" by simp
  from langStack_Re [OF this w(2)] rest w(1) show ?case by auto
next
  case (5 re n neg items k rest caps)
  from "5.prems" obtain c cs where rest: "rest = c # cs" and c: "classMatches re neg items c"
    and m: "matcher re n k cs caps = Some (rest', caps')"
    by (auto split: list.splits if_splits)
  from "5.IH" [OF rest c m] obtain w where w: "cs = w @ rest'" "langStack re k w" by auto
  from c have "lang re (Class neg items) [c]" by simp
  from langStack_Re [OF this w(2)] rest w(1) show ?case by auto
next
  case (6 re n k rest caps)
  then obtain w where "rest = w @ rest'" "langStack re k w" by (auto split: if_splits)
  then show ?case using langStack_Bol by blast
next
  case (7 re n k rest caps)
  then obtain w where "rest = w @ rest'" "langStack re k w" by (auto split: if_splits)
  then show ?case using langStack_Eol by blast
next
  case (8 re n a b k rest caps)
  from "8.prems" have "matcher re n (Re a # Re b # k) rest caps = Some (rest', caps')" by simp
  from "8.IH" [OF this] obtain w where "rest = w @ rest'" "langStack re (Re a # Re b # k) w"
    by blast
  then show ?case using langStack_Seq by blast
next
  case (9 re n a b k rest caps)
  show ?case
  proof (cases "matcher re n (Re a # k) rest caps")
    case None
    with "9.prems" have "matcher re n (Re b # k) rest caps = Some (rest', caps')" by simp
    from "9.IH"(2) [OF None this] show ?thesis using langStack_Alt2 by blast
  next
    case (Some x)
    with "9.prems" have "matcher re n (Re a # k) rest caps = Some (rest', caps')" by simp
    from "9.IH"(1) [OF this] show ?thesis using langStack_Alt1 by blast
  qed
next
  case (10 re n r k rest caps)
  show ?case
  proof (cases "matcher re n (Re r # Progress (length rest) # k) rest caps")
    case None
    with "10.prems" have "matcher re n k rest caps = Some (rest', caps')" by simp
    from "10.IH"(2) [OF None this] show ?thesis using langStack_Opt_skip by blast
  next
    case (Some x)
    with "10.prems" have "matcher re n (Re r # Progress (length rest) # k) rest caps = Some (rest', caps')"
      by simp
    from "10.IH"(1) [OF this] show ?thesis using langStack_Opt_body by blast
  qed
next
  case (11 re n greedy r k rest caps)
  let ?body = "matcher re n (Re r # Progress (length rest) # Re (Star greedy r) # k) rest caps"
  let ?skip = "matcher re n k rest caps"
  show ?case
  proof (cases greedy)
    case True
    show ?thesis
    proof (cases ?body)
      case None
      with True "11.prems" have "?skip = Some (rest', caps')" by simp
      from "11.IH"(2) [OF True None this] show ?thesis using langStack_Star_skip by blast
    next
      case (Some x)
      with True "11.prems" have "?body = Some (rest', caps')" by simp
      from "11.IH"(1) [OF True this] show ?thesis using langStack_Star_body by blast
    qed
  next
    case False
    show ?thesis
    proof (cases ?skip)
      case None
      with False "11.prems" have "?body = Some (rest', caps')" by simp
      from "11.IH"(4) [OF False None this] show ?thesis using langStack_Star_body by blast
    next
      case (Some x)
      with False "11.prems" have "?skip = Some (rest', caps')" by simp
      from "11.IH"(3) [OF False this] show ?thesis using langStack_Star_skip by blast
    qed
  qed
next
  case (12 re n greedy r k rest caps)
  from "12.prems" have "matcher re n (Re r # Re (Star greedy r) # k) rest caps = Some (rest', caps')"
    by simp
  from "12.IH" [OF this] show ?case using langStack_Plus by blast
next
  case (13 re n i r k rest caps)
  from "13.prems" have "matcher re n (Re r # Close i rest # k) rest caps = Some (rest', caps')"
    by simp
  from "13.IH" [OF this] show ?case using langStack_Group by blast
next
  case (14 re n l k rest caps)
  then show ?case by (auto split: if_splits)
next
  case (15 re n i r0 k rest caps)
  from "15.prems"
  have "matcher re n k rest (caps(i \<mapsto> take (length r0 - length rest) r0)) = Some (rest', caps')"
    by simp
  from "15.IH" [OF this] show ?case by simp
qed

lemma matcher_sets_group:
  "matcher re n k rest caps = Some (rest', caps') \<Longrightarrow>
   caps i \<noteq> None \<or> (\<exists>f \<in> set k. frameSetsGroup i f) \<Longrightarrow> caps' i \<noteq> None"
proof (induction re n k rest caps arbitrary: rest' caps' rule: matcher.induct)
  case (1 re n rest caps)
  then show ?case by auto
next
  case (2 re n k rest caps)
  then show ?case by auto
next
  case (3 re n a k rest caps)
  from "3.prems"(1) obtain c cs where rest: "rest = c # cs" and c: "sameChar (ignoreCase re) a c"
    and m: "matcher re n k cs caps = Some (rest', caps')"
    by (auto split: list.splits if_splits)
  from "3.prems"(2) have "caps i \<noteq> None \<or> (\<exists>f \<in> set k. frameSetsGroup i f)" by simp
  from "3.IH" [OF rest c m this] show ?case .
next
  case (4 re n k rest caps)
  from "4.prems"(1) obtain c cs where rest: "rest = c # cs" and c: "dotMatches re c"
    and m: "matcher re n k cs caps = Some (rest', caps')"
    by (auto split: list.splits if_splits)
  from "4.prems"(2) have "caps i \<noteq> None \<or> (\<exists>f \<in> set k. frameSetsGroup i f)" by simp
  from "4.IH" [OF rest c m this] show ?case .
next
  case (5 re n neg items k rest caps)
  from "5.prems"(1) obtain c cs where rest: "rest = c # cs" and c: "classMatches re neg items c"
    and m: "matcher re n k cs caps = Some (rest', caps')"
    by (auto split: list.splits if_splits)
  from "5.prems"(2) have "caps i \<noteq> None \<or> (\<exists>f \<in> set k. frameSetsGroup i f)" by simp
  from "5.IH" [OF rest c m this] show ?case .
next
  case (6 re n k rest caps)
  then show ?case by (auto split: if_splits)
next
  case (7 re n k rest caps)
  then show ?case by (auto split: if_splits)
next
  case (8 re n a b k rest caps)
  from "8.prems"(1) have m: "matcher re n (Re a # Re b # k) rest caps = Some (rest', caps')" by simp
  from "8.prems"(2) have "caps i \<noteq> None \<or> (\<exists>f \<in> set (Re a # Re b # k). frameSetsGroup i f)"
    by auto
  from "8.IH" [OF m this] show ?case .
next
  case (9 re n a b k rest caps)
  from "9.prems"(2) have a: "caps i \<noteq> None \<or> (\<exists>f \<in> set (Re a # k). frameSetsGroup i f)"
    and b: "caps i \<noteq> None \<or> (\<exists>f \<in> set (Re b # k). frameSetsGroup i f)"
    by auto
  show ?case
  proof (cases "matcher re n (Re a # k) rest caps")
    case None
    with "9.prems"(1) have "matcher re n (Re b # k) rest caps = Some (rest', caps')" by simp
    from "9.IH"(2) [OF None this b] show ?thesis .
  next
    case (Some x)
    with "9.prems"(1) have "matcher re n (Re a # k) rest caps = Some (rest', caps')" by simp
    from "9.IH"(1) [OF this a] show ?thesis .
  qed
next
  case (10 re n r k rest caps)
  from "10.prems"(2) have skip: "caps i \<noteq> None \<or> (\<exists>f \<in> set k. frameSetsGroup i f)"
    by auto
  then have body: "caps i \<noteq> None \<or> (\<exists>f \<in> set (Re r # Progress (length rest) # k). frameSetsGroup i f)"
    by auto
  show ?case
  proof (cases "matcher re n (Re r # Progress (length rest) # k) rest caps")
    case None
    with "10.prems"(1) have "matcher re n k rest caps = Some (rest', caps')" by simp
    from "10.IH"(2) [OF None this skip] show ?thesis .
  next
    case (Some x)
    with "10.prems"(1)
    have "matcher re n (Re r # Progress (length rest) # k) rest caps = Some (rest', caps')" by simp
    from "10.IH"(1) [OF this body] show ?thesis .
  qed
next
  case (11 re n greedy r k rest caps)
  let ?body = "matcher re n (Re r # Progress (length rest) # Re (Star greedy r) # k) rest caps"
  let ?skip = "matcher re n k rest caps"
  from "11.prems"(2) have skip: "caps i \<noteq> None \<or> (\<exists>f \<in> set k. frameSetsGroup i f)"
    by auto
  then have body: "caps i \<noteq> None
      \<or> (\<exists>f \<in> set (Re r # Progress (length rest) # Re (Star greedy r) # k). frameSetsGroup i f)"
    by auto
  show ?case
  proof (cases greedy)
    case True
    show ?thesis
    proof (cases ?body)
      case None
      with True "11.prems"(1) have "?skip = Some (rest', caps')" by simp
      from "11.IH"(2) [OF True None this skip] show ?thesis .
    next
      case (Some x)
      with True "11.prems"(1) have "?body = Some (rest', caps')" by simp
      from "11.IH"(1) [OF True this body] show ?thesis .
    qed
  next
    case False
    show ?thesis
    proof (cases ?skip)
      case None
      with False "11.prems"(1) have "?body = Some (rest', caps')" by simp
      from "11.IH"(4) [OF False None this body] show ?thesis .
    next
      case (Some x)
      with False "11.prems"(1) have "?skip = Some (rest', caps')" by simp
      from "11.IH"(3) [OF False this skip] show ?thesis .
    qed
  qed
next
  case (12 re n greedy r k rest caps)
  from "12.prems"(1)
  have m: "matcher re n (Re r # Re (Star greedy r) # k) rest caps = Some (rest', caps')" by simp
  from "12.prems"(2)
  have "caps i \<noteq> None \<or> (\<exists>f \<in> set (Re r # Re (Star greedy r) # k). frameSetsGroup i f)"
    by auto
  from "12.IH" [OF m this] show ?case .
next
  case (13 re n j r k rest caps)
  from "13.prems"(1)
  have m: "matcher re n (Re r # Close j rest # k) rest caps = Some (rest', caps')" by simp
  from "13.prems"(2)
  have "caps i \<noteq> None \<or> (\<exists>f \<in> set (Re r # Close j rest # k). frameSetsGroup i f)"
    by auto
  from "13.IH" [OF m this] show ?case .
next
  case (14 re n l k rest caps)
  then show ?case by (auto split: if_splits)
next
  case (15 re n j r0 k rest caps)
  from "15.prems"(1)
  have m: "matcher re n k rest (caps(j \<mapsto> take (length r0 - length rest) r0)) = Some (rest', caps')"
    by simp
  from "15.prems"(2)
  have "(caps(j \<mapsto> take (length r0 - length rest) r0)) i \<noteq> None
        \<or> (\<exists>f \<in> set k. frameSetsGroup i f)"
    by auto
  from "15.IH" [OF m this] show ?case .
qed

lemma lang_minLength: "lang re r w \<Longrightarrow> minLength r \<le> length w"
proof (induction r arbitrary: w)
  case (Plus greedy r)
  then obtain ws where ws: "ws \<noteq> []" "w = concat ws" "list_all (lang re r) ws" by auto
  then obtain x xs where "ws = x # xs" by (cases ws) auto
  with ws Plus.IH [of x] show ?case by simp
next
  case (Seq a b)
  then obtain u v where "w = u @ v" "lang re a u" "lang re b v" by auto
  with Seq.IH(1) [of u] Seq.IH(2) [of v] show ?case by simp
next
  case (Alt a b)
  then have "lang re a w \<or> lang re b w" by simp
  with Alt.IH(1) [of w] Alt.IH(2) [of w] show ?case by auto
qed auto

lemma search_found:
  "search re n rest = Some (st, rest', caps) \<Longrightarrow>
   (\<exists>p. rest = p @ st) \<and> matcher re n [Re (source re)] st Map.empty = Some (rest', caps)"
proof (induction rest)
  case Nil
  then show ?case by (auto split: option.splits)
next
  case (Cons c cs)
  show ?case
  proof (cases "matcher re n [Re (source re)] (c # cs) Map.empty")
    case None
    with Cons.prems have "search re n cs = Some (st, rest', caps)" by simp
    from Cons.IH [OF this] obtain p where "cs = p @ st"
      and "matcher re n [Re (source re)] st Map.empty = Some (rest', caps)" by blast
    then have "c # cs = (c # p) @ st" by simp
    with \<open>matcher re n [Re (source re)] st Map.empty = Some (rest', caps)\<close> show ?thesis by blast
  next
    case (Some x)
    with Cons.prems have "st = c # cs" "x = (rest', caps)" by (auto split: prod.splits)
    with Some show ?thesis by auto
  qed
qed

text \<open>A match of a pattern consumes what the pattern can match.\<close>

lemma search_lang:
  assumes "search re n rest = Some (st, rest', caps)"
  shows "\<exists>w. st = w @ rest' \<and> lang re (source re) w"
proof -
  from search_found [OF assms]
  have "matcher re n [Re (source re)] st Map.empty = Some (rest', caps)" by blast
  from matcher_sound [OF this] show ?thesis by auto
qed

lemma search_group:
  assumes "search re n rest = Some (st, rest', caps)" and "setsGroup i (source re)"
  shows "caps i \<noteq> None"
proof -
  from search_found [OF assms(1)]
  have "matcher re n [Re (source re)] st Map.empty = Some (rest', caps)" by blast
  from matcher_sets_group [OF this, of i] assms(2) show ?thesis by simp
qed

lemma execLoop_returns:
  assumes "global re" and "0 < minLength (source re)" and "setsGroup 1 (source re)"
  shows "\<exists>found. execLoop re minLen n rest acc = Returns (acc @ found)"
  using assms
proof (induction re minLen n rest acc rule: execLoop.induct)
  case (1 re minLen n rest acc)
  show ?case
  proof (cases "search re n rest")
    case None
    then show ?thesis by (simp add: execLoop.simps)
  next
    case (Some found)
    obtain st rest' caps where found: "found = (st, rest', caps)" by (cases found)
    with Some have s: "search re n rest = Some (st, rest', caps)" by simp
    from search_group [OF s "1.prems"(3)] obtain cap where cap: "caps 1 = Some cap" by auto
    from search_lang [OF s] obtain w where w: "st = w @ rest'" "lang re (source re) w" by auto
    from lang_minLength [OF w(2)] "1.prems"(2) have "0 < length w" by linarith
    with w(1) have shorter: "length rest' < length st" by simp
    let ?acc = "if minLen < length (trim cap) then acc @ [trim cap] else acc"
    from 1 s cap shorter found
    obtain more where "execLoop re minLen n rest' ?acc = Returns (?acc @ more)"
      by fastforce
    moreover from s cap shorter "1.prems"(1)
    have "execLoop re minLen n rest acc = execLoop re minLen n rest' ?acc"
      by (subst execLoop.simps) simp
    ultimately show ?thesis by (cases "minLen < length (trim cap)") auto
  qed
qed

subsection \<open>The loops of the extractors\<close>

lemma execLoop_acc:
  "execLoop re minLen n rest acc' = Returns found \<Longrightarrow>
   execLoop re minLen n rest (acc @ acc') = Returns (acc @ found)"
proof (induction re minLen n rest acc' arbitrary: found rule: execLoop.induct)
  case (1 re minLen n rest acc')
  show ?case
  proof (cases "search re n rest")
    case None
    with "1.prems" show ?thesis by (simp add: execLoop.simps)
  next
    case (Some hit)
    obtain st rest' caps where hit: "hit = (st, rest', caps)" by (cases hit)
    with Some have s: "search re n rest = Some (st, rest', caps)" by simp
    from s "1.prems" obtain cap where cap: "caps 1 = Some cap"
      by (subst (asm) execLoop.simps) (auto split: option.splits)
    from s cap "1.prems" have go: "global re \<and> length rest' < length st"
      by (subst (asm) execLoop.simps) (auto split: if_splits)
    let ?push = "\<lambda>a. if minLen < length (trim cap) then a @ [trim cap] else a"
    from s cap go "1.prems" have "execLoop re minLen n rest' (?push acc') = Returns found"
      by (subst (asm) execLoop.simps) simp
    from "1.IH" [OF s refl refl cap go this]
    have "execLoop re minLen n rest' (acc @ ?push acc') = Returns (acc @ found)"
      by simp
    moreover have "acc @ ?push acc' = ?push (acc @ acc')" by simp
    moreover from s cap go
    have "execLoop re minLen n rest (acc @ acc') = execLoop re minLen n rest' (?push (acc @ acc'))"
      by (subst execLoop.simps) simp
    ultimately show ?thesis by simp
  qed
qed

lemma reqPatterns_total:
  "global reqPattern1 \<and> 0 < minLength (source reqPattern1) \<and> setsGroup 1 (source reqPattern1)"
  "global reqPattern2 \<and> 0 < minLength (source reqPattern2) \<and> setsGroup 1 (source reqPattern2)"
  "global reqPattern3 \<and> 0 < minLength (source reqPattern3) \<and> setsGroup 1 (source reqPattern3)"
  by (simp_all add: reqPattern1_def reqPattern2_def reqPattern3_def separators_def capitalLetter_def js_def)

lemma criteriaPatterns_total:
  "global criteriaPattern1 \<and> 0 < minLength (source criteriaPattern1) \<and> setsGroup 1 (source criteriaPattern1)"
  "global criteriaPattern2 \<and> 0 < minLength (source criteriaPattern2) \<and> setsGroup 1 (source criteriaPattern2)"
  "global criteriaPattern3 \<and> 0 < minLength (source criteriaPattern3) \<and> setsGroup 1 (source criteriaPattern3)"
  by (simp_all add: criteriaPattern1_def criteriaPattern2_def criteriaPattern3_def separators_def capitalLetter_def js_def)

lemma forEachPattern3:
  assumes "execLoop p1 minLen (length d) d [] = Returns r1"
    and "execLoop p2 minLen (length d) d [] = Returns r2"
    and "execLoop p3 minLen (length d) d [] = Returns r3"
  shows "forEachPattern [p1, p2, p3] minLen d [] = Returns (r1 @ r2 @ r3)"
proof -
  from execLoop_acc [OF assms(2), of r1]
  have 2: "execLoop p2 minLen (length d) d r1 = Returns (r1 @ r2)" by simp
  from execLoop_acc [OF assms(3), of "r1 @ r2"]
  have 3: "execLoop p3 minLen (length d) d (r1 @ r2) = Returns (r1 @ r2 @ r3)" by simp
  from assms(1) 2 3 show ?thesis by simp
qed

text \<open>On the empty description no pattern matches.\<close>

lemma execLoop_empty_input:
  "execLoop reqPattern1 10 0 [] [] = Returns []"
  "execLoop reqPattern2 10 0 [] [] = Returns []"
  "execLoop reqPattern3 10 0 [] [] = Returns []"
  "execLoop criteriaPattern1 5 0 [] [] = Returns []"
  "execLoop criteriaPattern2 5 0 [] [] = Returns []"
  "execLoop criteriaPattern3 5 0 [] [] = Returns []"
  by (simp_all add: reqPattern1_def reqPattern2_def reqPattern3_def criteriaPattern1_def
      criteriaPattern2_def criteriaPattern3_def execLoop.simps regex_eval)




text \<open>The analysis returns on every issue: no loop runs for ever and no capture is
  undefined.\<close>

lemma forEachPattern3_returns:
  assumes "global p1 \<and> 0 < minLength (source p1) \<and> setsGroup 1 (source p1)"
    and "global p2 \<and> 0 < minLength (source p2) \<and> setsGroup 1 (source p2)"
    and "global p3 \<and> 0 < minLength (source p3) \<and> setsGroup 1 (source p3)"
  shows "\<exists>found. forEachPattern [p1, p2, p3] minLen d [] = Returns found"
proof -
  from execLoop_returns [of p1 minLen "length d" d "[]"] assms(1)
  obtain r1 where 1: "execLoop p1 minLen (length d) d [] = Returns r1" by auto
  from execLoop_returns [of p2 minLen "length d" d "[]"] assms(2)
  obtain r2 where 2: "execLoop p2 minLen (length d) d [] = Returns r2" by auto
  from execLoop_returns [of p3 minLen "length d" d "[]"] assms(3)
  obtain r3 where 3: "execLoop p3 minLen (length d) d [] = Returns r3" by auto
  from forEachPattern3 [OF 1 2 3] show ?thesis by blast
qed

lemma analyzeIssueForQA_returns: "\<exists>analysis. analyzeIssueForQA issueData = Returns analysis"
proof -
  from forEachPattern3_returns [OF reqPatterns_total, of 10 "description issueData"]
  obtain reqs where "forEachPattern reqPatterns 10 (description issueData) [] = Returns reqs"
    by (auto simp: reqPatterns_def)
  then have "\<exists>reqs'. extractRequirements issueData = Returns reqs'"
    by (simp add: extractRequirements_def)
  moreover
  from forEachPattern3_returns [OF criteriaPatterns_total, of 5 "description issueData"]
  have "\<exists>criteria. extractAcceptanceCriteria issueData = Returns criteria"
    by (simp add: extractAcceptanceCriteria_def criteriaPatterns_def)
  ultimately show ?thesis
    by (auto simp: analyzeIssueForQA_def Let_def)
qed

subsection \<open>GitHub issue links\<close>

lemma lang_str_plain: "s \<noteq> [] \<Longrightarrow> lang (plain p) (str s) w \<Longrightarrow> w = s"
proof (induction s arbitrary: w rule: str.induct)
  case 1
  then show ?case by simp
next
  case (2 c)
  then show ?case by (simp add: plain_def sameChar_def)
next
  case (3 c d cs)
  from "3.prems"(2) obtain u v where "w = u @ v" "lang (plain p) (Chr c) u" "lang (plain p) (str (d # cs)) v"
    by auto
  with "3.IH" [of v] show ?case by (simp add: plain_def sameChar_def)
qed

lemma lang_Plus_Class:
  assumes "lang re (Plus g (Class neg items)) w"
  shows "w \<noteq> [] \<and> list_all (classMatches re neg items) w"
proof -
  from assms obtain ws where ws: "ws \<noteq> []" "w = concat ws"
    "list_all (lang re (Class neg items)) ws" by auto
  have "list_all (classMatches re neg items) (concat xs) \<and> (xs \<noteq> [] \<longrightarrow> concat xs \<noteq> [])"
    if "list_all (lang re (Class neg items)) xs" for xs
    using that by (induction xs) auto
  from this [OF ws(3)] ws(1,2) show ?thesis by simp
qed

lemma notSlash_plain: "classMatches (plain p) True [CChar 0x2F] c \<longleftrightarrow> c \<noteq> 0x2F"
  by (auto simp: classMatches_def plain_def sameChar_def)

lemma digit_plain: "classMatches (plain p) False [CDigit] c \<longleftrightarrow> isDigit c"
  by (simp add: classMatches_def)

lemma lang_githubIssuePattern:
  assumes "lang githubIssuePattern (source githubIssuePattern) w"
  shows "\<exists>scheme ownerName repoName n.
           w = scheme @ js ''://github.com/'' @ ownerName @ js ''/'' @ repoName @ js ''/issues/'' @ n
           \<and> (scheme = js ''http'' \<or> scheme = js ''https'')
           \<and> ownerName \<noteq> [] \<and> 0x2F \<notin> set ownerName
           \<and> repoName \<noteq> [] \<and> 0x2F \<notin> set repoName
           \<and> n \<noteq> [] \<and> list_all isDigit n"
proof -
  let ?re = "plain (source githubIssuePattern)"
  have re: "githubIssuePattern = ?re"
    by (simp add: githubIssuePattern_def plain_def)
  have src: "source githubIssuePattern =
      Seq Bol (Seq (str (js ''http'')) (Seq (Opt (str (js ''s''))) (Seq (str (js ''://github.com/''))
        (Seq (Group 1 (Plus True notSlash)) (Seq (str (js ''/'')) (Seq (Group 2 (Plus True notSlash))
          (Seq (str (js ''/issues/'')) (Group 3 (Plus True digit)))))))))"
    by (simp add: githubIssuePattern_def plain_def)
  from assms re have "lang ?re (source githubIssuePattern) w" by simp
  then obtain w1 w2 w3 w4 w5 w6 w7 w8 where w: "w = w1 @ w2 @ w3 @ w4 @ w5 @ w6 @ w7 @ w8"
    and 1: "lang ?re (str (js ''http'')) w1"
    and 2: "lang ?re (Opt (str (js ''s''))) w2"
    and 3: "lang ?re (str (js ''://github.com/'')) w3"
    and 4: "lang ?re (Plus True notSlash) w4"
    and 5: "lang ?re (str (js ''/'')) w5"
    and 6: "lang ?re (Plus True notSlash) w6"
    and 7: "lang ?re (str (js ''/issues/'')) w7"
    and 8: "lang ?re (Plus True digit) w8"
    unfolding src by (auto simp del: lang.simps(9,11))
  from lang_str_plain [OF _ 1] have w1: "w1 = js ''http''" by (simp add: js_def)
  from 2 have "w2 = [] \<or> lang ?re (str (js ''s'')) w2" by simp
  with lang_str_plain [of "js ''s''" _ w2] have w2: "w2 = [] \<or> w2 = js ''s''"
    by (auto simp: js_def)
  from lang_str_plain [OF _ 3] have w3: "w3 = js ''://github.com/''" by (simp add: js_def)
  from lang_str_plain [OF _ 5] have w5: "w5 = js ''/''" by (simp add: js_def)
  from lang_str_plain [OF _ 7] have w7: "w7 = js ''/issues/''" by (simp add: js_def)
  from lang_Plus_Class [OF 4 [unfolded notSlash_def]]
  have w4: "w4 \<noteq> [] \<and> 0x2F \<notin> set w4"
    by (auto simp: notSlash_plain list_all_iff)
  from lang_Plus_Class [OF 6 [unfolded notSlash_def]]
  have w6: "w6 \<noteq> [] \<and> 0x2F \<notin> set w6"
    by (auto simp: notSlash_plain list_all_iff)
  from lang_Plus_Class [OF 8 [unfolded digit_def]]
  have w8: "w8 \<noteq> [] \<and> list_all isDigit w8"
    by (simp add: digit_plain list_all_iff)
  have "w1 @ w2 = js ''http'' \<or> w1 @ w2 = js ''https''"
    using w1 w2 by (auto simp: js_def)
  moreover have "w = (w1 @ w2) @ js ''://github.com/'' @ w4 @ js ''/'' @ w6 @ js ''/issues/'' @ w8"
    using w w3 w5 w7 by simp
  ultimately show ?thesis using w4 w6 w8 by blast
qed

lemma match_githubIssuePattern:
  assumes "match githubIssuePattern url = Some m"
  shows "githubIssueLink url \<and> m 1 \<noteq> None \<and> m 2 \<noteq> None \<and> m 3 \<noteq> None"
proof -
  from assms obtain st rest' where s: "search githubIssuePattern (length url) url = Some (st, rest', m)"
    by (auto simp: match_def)
  from search_found [OF s] obtain p where p: "url = p @ st"
    and m: "matcher githubIssuePattern (length url) [Re (source githubIssuePattern)] st Map.empty
              = Some (rest', m)"
    by blast
  have "\<exists>r. source githubIssuePattern = Seq Bol r"
    by (simp add: githubIssuePattern_def plain_def)
  with m have "length st = length url"
    by (auto split: if_splits)
  with p have st: "st = url" by simp
  from search_lang [OF s] st
  have "\<exists>w. url = w @ rest' \<and> lang githubIssuePattern (source githubIssuePattern) w" by simp
  then obtain w where url: "url = w @ rest'"
    and "lang githubIssuePattern (source githubIssuePattern) w" by blast
  from lang_githubIssuePattern [OF this(2)]
  obtain scheme ownerName repoName n where
    "w = scheme @ js ''://github.com/'' @ ownerName @ js ''/'' @ repoName @ js ''/issues/'' @ n"
    "scheme = js ''http'' \<or> scheme = js ''https''"
    "ownerName \<noteq> [] \<and> 0x2F \<notin> set ownerName" "repoName \<noteq> [] \<and> 0x2F \<notin> set repoName"
    "n \<noteq> [] \<and> list_all isDigit n"
    by blast
  with url have "url = scheme @ js ''://github.com/'' @ ownerName @ js ''/'' @ repoName
                       @ js ''/issues/'' @ n @ rest'
      \<and> (scheme = js ''http'' \<or> scheme = js ''https'')
      \<and> ownerName \<noteq> [] \<and> 0x2F \<notin> set ownerName \<and> repoName \<noteq> [] \<and> 0x2F \<notin> set repoName
      \<and> n \<noteq> [] \<and> list_all isDigit n"
    by simp
  then have "githubIssueLink url"
    unfolding githubIssueLink_def by blast
  moreover have "setsGroup 1 (source githubIssuePattern)" "setsGroup 2 (source githubIssuePattern)"
    "setsGroup 3 (source githubIssuePattern)"
    by (simp_all add: githubIssuePattern_def plain_def js_def)
  with search_group [OF s] have "m 1 \<noteq> None \<and> m 2 \<noteq> None \<and> m 3 \<noteq> None"
    by blast
  ultimately show ?thesis by blast
qed

lemma parseGitHubIssueUrl_no_TypeError: "parseGitHubIssueUrl url \<noteq> Throws TypeError"
proof (cases "match githubIssuePattern url")
  case None
  then show ?thesis by (simp add: parseGitHubIssueUrl_def)
next
  case (Some m)
  from match_githubIssuePattern [OF Some] show ?thesis
    by (auto simp: parseGitHubIssueUrl_def Some)
qed

text \<open>
  C9, as the code has it. The link \<open>https://github.com/o/r/issues/7\<close> parses to the
  owner \<open>o\<close>, the repository \<open>r\<close> and the issue 7; and every input that does not
  begin with \<open>http://github.com/\<close> or \<open>https://github.com/\<close>, an owner and a
  repository without a slash, \<open>/issues/\<close> and at least one digit raises the
  invalid-parameters error. What follows the digits is not looked at.
\<close>

theorem parseGitHubIssueUrl_example_and_invalid:
  "parseGitHubIssueUrl (js ''https://github.com/o/r/issues/7'')
     = Returns \<lparr>owner = js ''o'', repo = js ''r'', issueNumber = 7\<rparr>
   \<and> (\<forall>url. \<not> githubIssueLink url \<longrightarrow>
          parseGitHubIssueUrl url
            = Throws (McpError InvalidParams
                (js ''URL de issue de GitHub inv'' @ [0xE1]
                 @ js ''lido. Formato esperado: https://github.com/owner/repo/issues/123'')))"
proof -
  have "parseGitHubIssueUrl (js ''https://github.com/o/r/issues/7'')
     = Returns \<lparr>owner = js ''o'', repo = js ''r'', issueNumber = 7\<rparr>"
    by (simp add: parseGitHubIssueUrl_def githubIssuePattern_def parseInt10_def regex_eval)
  moreover have "parseGitHubIssueUrl url
            = Throws (McpError InvalidParams
                (js ''URL de issue de GitHub inv'' @ [0xE1]
                 @ js ''lido. Formato esperado: https://github.com/owner/repo/issues/123''))"
    if "\<not> githubIssueLink url" for url
  proof (cases "match githubIssuePattern url")
    case None
    then show ?thesis by (simp add: parseGitHubIssueUrl_def githubIssueUrlInvalid_def)
  next
    case (Some m)
    from match_githubIssuePattern [OF Some] that show ?thesis by simp
  qed
  ultimately show ?thesis by blast
qed

theorem parseGitHubIssueUrl_example_and_invalid_witness:
  "\<not> githubIssueLink (js ''github.com/o/r/issues/7'')
   \<and> parseGitHubIssueUrl (js ''github.com/o/r/issues/7'')
     = Throws (McpError InvalidParams
                (js ''URL de issue de GitHub inv'' @ [0xE1]
                 @ js ''lido. Formato esperado: https://github.com/owner/repo/issues/123''))"
proof -
  have "\<not> githubIssueLink (js ''github.com/o/r/issues/7'')"
    by (auto simp: githubIssueLink_def js_def)
  with parseGitHubIssueUrl_example_and_invalid show ?thesis by blast
qed

text \<open>
  C9 as stated fails: \<open>http://github.com/o/r/issues/7abc\<close> is not of the shape
  \<open>https://github.com/owner/repo/issues/{n}\<close>, and it parses.
\<close>

theorem parseGitHubIssueUrl_lenient:
  "\<not> specGitHubIssueShape (js ''http://github.com/o/r/issues/7abc'')
   \<and> parseGitHubIssueUrl (js ''http://github.com/o/r/issues/7abc'')
     = Returns \<lparr>owner = js ''o'', repo = js ''r'', issueNumber = 7\<rparr>"
proof -
  have "\<not> specGitHubIssueShape (js ''http://github.com/o/r/issues/7abc'')"
    by (auto simp: specGitHubIssueShape_def js_def)
  moreover have "parseGitHubIssueUrl (js ''http://github.com/o/r/issues/7abc'')
     = Returns \<lparr>owner = js ''o'', repo = js ''r'', issueNumber = 7\<rparr>"
    by (simp add: parseGitHubIssueUrl_def githubIssuePattern_def parseInt10_def regex_eval)
  ultimately show ?thesis by blast
qed

subsection \<open>An issue without a description\<close>

lemma dedupe_universalSuggestions: "dedupe universalSuggestions = universalSuggestions"
  by (simp add: dedupe_def universalSuggestions_def js_def)

lemma dedupe_baselineTestTypes: "dedupe baselineTestTypes = baselineTestTypes"
  by (simp add: dedupe_def baselineTestTypes_def js_def)

lemma filter_none: "(\<forall>x \<in> set xs. \<not> P x) \<Longrightarrow> filter P xs = []"
  by (induction xs) auto

text \<open>
  C1, as the code has it. For every issue with an empty description the analysis
  returns; the requirements are the one entry made from the title and there are no
  acceptance criteria, whatever the title. The other three lists are computed from the
  title in lower case followed by a space: the suggestions are the four universal ones
  when no keyword of the table occurs in that text, there is no risk area when no
  risk pattern matches it and no label is a critical one, and the test types are the
  two baseline ones when no type pattern matches it.
\<close>

theorem analyzeIssueForQA_empty_description:
  assumes "description issueData = []"
  shows "\<exists>suggestions risks types.
     analyzeIssueForQA issueData
       = Returns \<lparr>requirements = [js ''Implementar: '' @ title issueData],
                  acceptanceCriteria = [],
                  testingSuggestions = suggestions, riskAreas = risks, testTypes = types\<rparr>
     \<and> ((\<forall>(keywords, tests) \<in> set testingSuggestionsTable. \<forall>keyword \<in> set keywords.
            \<not> includes_js (toLowerCase (title issueData) @ js '' '') keyword)
        \<longrightarrow> suggestions
            = [js ''Verificar que el cambio no rompe funcionalidad existente'',
               js ''Probar en diferentes navegadores/dispositivos'',
               js ''Validar performance bajo carga normal'',
               js ''Revisar logs de errores durante las pruebas''])
     \<and> ((\<forall>(pattern, risk) \<in> set riskIndicators.
            \<not> test pattern (toLowerCase (title issueData) @ js '' ''))
        \<and> (\<forall>label \<in> set (labels issueData). toLowerCase label \<notin> set criticalLabels)
        \<longrightarrow> risks = [])
     \<and> ((\<forall>(pattern, type) \<in> set typeMapping.
            \<not> test pattern (toLowerCase (title issueData) @ js '' ''))
        \<longrightarrow> types = [js ''Testing Funcional'', js ''Testing de Regresi'' @ [0xF3] @ js ''n''])"
proof -
  let ?ft = "toLowerCase (title issueData) @ js '' ''"
  from assms have ft: "toLowerCase (title issueData) @ js '' '' @ toLowerCase (description issueData) = ?ft"
    by (simp add: toLowerCase_def)
  from assms have reqs: "extractRequirements issueData = Returns [js ''Implementar: '' @ title issueData]"
    by (simp add: extractRequirements_def reqPatterns_def execLoop_empty_input)
  from assms have crit: "extractAcceptanceCriteria issueData = Returns []"
    by (simp add: extractAcceptanceCriteria_def criteriaPatterns_def execLoop_empty_input)
  have result: "analyzeIssueForQA issueData
       = Returns \<lparr>requirements = [js ''Implementar: '' @ title issueData],
                  acceptanceCriteria = [],
                  testingSuggestions = generateTestingSuggestions issueData ?ft,
                  riskAreas = identifyRiskAreas ?ft (labels issueData),
                  testTypes = determineTestTypes ?ft (labels issueData)\<rparr>"
    unfolding analyzeIssueForQA_def Let_def ft by (simp add: reqs crit)
  have sugg: "generateTestingSuggestions issueData ?ft = universalSuggestions"
    if "\<forall>(keywords, tests) \<in> set testingSuggestionsTable. \<forall>keyword \<in> set keywords.
            \<not> includes_js ?ft keyword"
  proof -
    from that have "filter (\<lambda>(keywords, tests). list_ex (\<lambda>keyword. includes_js ?ft keyword) keywords)
              testingSuggestionsTable = []"
      by (intro filter_none) (auto simp: list_ex_iff)
    then show ?thesis
      by (simp add: generateTestingSuggestions_def pushedSuggestions_def dedupe_universalSuggestions)
  qed
  have risk: "identifyRiskAreas ?ft (labels issueData) = []"
    if "\<forall>(pattern, risk) \<in> set riskIndicators. \<not> test pattern ?ft"
      and "\<forall>label \<in> set (labels issueData). toLowerCase label \<notin> set criticalLabels"
  proof -
    from that(1) have "filter (\<lambda>(pattern, risk). test pattern ?ft) riskIndicators = []"
      by (intro filter_none) auto
    with that(2) show ?thesis
      by (simp add: identifyRiskAreas_def list_ex_iff)
  qed
  have types: "determineTestTypes ?ft (labels issueData) = baselineTestTypes"
    if "\<forall>(pattern, type) \<in> set typeMapping. \<not> test pattern ?ft"
  proof -
    from that have "filter (\<lambda>(pattern, type). test pattern ?ft) typeMapping = []"
      by (intro filter_none) auto
    then show ?thesis
      by (simp add: determineTestTypes_def dedupe_baselineTestTypes)
  qed
  from result sugg risk types show ?thesis
    by (simp add: universalSuggestions_def baselineTestTypes_def)
qed

theorem analyzeIssueForQA_empty_description_witness:
  "description typoIssue = []
   \<and> analyzeIssueForQA typoIssue
       = Returns \<lparr>requirements = [js ''Implementar: Fix typo''],
                  acceptanceCriteria = [],
                  testingSuggestions =
                    [js ''Verificar que el cambio no rompe funcionalidad existente'',
                     js ''Probar en diferentes navegadores/dispositivos'',
                     js ''Validar performance bajo carga normal'',
                     js ''Revisar logs de errores durante las pruebas''],
                  riskAreas = [],
                  testTypes = [js ''Testing Funcional'', js ''Testing de Regresi'' @ [0xF3] @ js ''n'']\<rparr>"
proof -
  have d: "description typoIssue = []"
    by (simp add: typoIssue_def loginIssue_def)
  have ft: "toLowerCase (title typoIssue) @ js '' '' = js ''fix typo ''"
    by (simp add: typoIssue_def loginIssue_def toLowerCase_def lowerChar_def js_def)
  have k: "\<forall>(keywords, tests) \<in> set testingSuggestionsTable. \<forall>keyword \<in> set keywords.
            \<not> includes_js (js ''fix typo '') keyword"
    by (simp add: testingSuggestionsTable_def js_def)
  have noRisk: "\<forall>(pattern, risk) \<in> set riskIndicators. \<not> test pattern (js ''fix typo '')"
    by (simp add: riskIndicators_def regex_eval)
  have l: "\<forall>label \<in> set (labels typoIssue). toLowerCase label \<notin> set criticalLabels"
    by (simp add: typoIssue_def loginIssue_def)
  have noType: "\<forall>(pattern, type) \<in> set typeMapping. \<not> test pattern (js ''fix typo '')"
    by (simp add: typeMapping_def regex_eval)
  have title: "js ''Implementar: '' @ title typoIssue = js ''Implementar: Fix typo''"
    by (simp add: typoIssue_def loginIssue_def js_def)
  from analyzeIssueForQA_empty_description [OF d] obtain suggestions risks types
    where result: "analyzeIssueForQA typoIssue
       = Returns \<lparr>requirements = [js ''Implementar: '' @ title typoIssue],
                  acceptanceCriteria = [],
                  testingSuggestions = suggestions, riskAreas = risks, testTypes = types\<rparr>"
      and s: "(\<forall>(keywords, tests) \<in> set testingSuggestionsTable. \<forall>keyword \<in> set keywords.
            \<not> includes_js (toLowerCase (title typoIssue) @ js '' '') keyword)
        \<longrightarrow> suggestions
            = [js ''Verificar que el cambio no rompe funcionalidad existente'',
               js ''Probar en diferentes navegadores/dispositivos'',
               js ''Validar performance bajo carga normal'',
               js ''Revisar logs de errores durante las pruebas'']"
      and r: "(\<forall>(pattern, risk) \<in> set riskIndicators.
            \<not> test pattern (toLowerCase (title typoIssue) @ js '' ''))
        \<and> (\<forall>label \<in> set (labels typoIssue). toLowerCase label \<notin> set criticalLabels)
        \<longrightarrow> risks = []"
      and t: "(\<forall>(pattern, type) \<in> set typeMapping.
            \<not> test pattern (toLowerCase (title typoIssue) @ js '' ''))
        \<longrightarrow> types = [js ''Testing Funcional'', js ''Testing de Regresi'' @ [0xF3] @ js ''n'']"
    by blast
  from s [unfolded ft] k r [unfolded ft] noRisk l t [unfolded ft] noType
  have "suggestions
            = [js ''Verificar que el cambio no rompe funcionalidad existente'',
               js ''Probar en diferentes navegadores/dispositivos'',
               js ''Validar performance bajo carga normal'',
               js ''Revisar logs de errores durante las pruebas'']"
    "risks = []"
    "types = [js ''Testing Funcional'', js ''Testing de Regresi'' @ [0xF3] @ js ''n'']"
    by blast+
  with result d show ?thesis
    unfolding title by simp
qed

text \<open>
  C1 as stated fails: the title \<open>Login\<close>, with an empty description, brings the four
  suggestions of the authentication group in front of the universal ones.
\<close>

theorem analyzeIssueForQA_title_keyword:
  "description loginIssue = []
   \<and> analyzeIssueForQA loginIssue
       = Returns \<lparr>requirements = [js ''Implementar: Login''],
                  acceptanceCriteria = [],
                  testingSuggestions =
                    [js ''Verificar login con credenciales v'' @ [0xE1] @ js ''lidas'',
                     js ''Verificar error con credenciales inv'' @ [0xE1] @ js ''lidas'',
                     js ''Verificar logout funciona correctamente'',
                     js ''Probar casos de seguridad (inyecci'' @ [0xF3] @ js ''n, XSS)'',
                     js ''Verificar que el cambio no rompe funcionalidad existente'',
                     js ''Probar en diferentes navegadores/dispositivos'',
                     js ''Validar performance bajo carga normal'',
                     js ''Revisar logs de errores durante las pruebas''],
                  riskAreas = [],
                  testTypes = [js ''Testing Funcional'', js ''Testing de Regresi'' @ [0xF3] @ js ''n'']\<rparr>
   \<and> analyzeIssueForQA loginIssue
       \<noteq> Returns \<lparr>requirements = [js ''Implementar: Login''],
                  acceptanceCriteria = [],
                  testingSuggestions =
                    [js ''Verificar que el cambio no rompe funcionalidad existente'',
                     js ''Probar en diferentes navegadores/dispositivos'',
                     js ''Validar performance bajo carga normal'',
                     js ''Revisar logs de errores durante las pruebas''],
                  riskAreas = [],
                  testTypes = [js ''Testing Funcional'', js ''Testing de Regresi'' @ [0xF3] @ js ''n'']\<rparr>"
proof -
  have ft: "toLowerCase (title loginIssue) @ js '' '' @ toLowerCase (description loginIssue) = js ''login ''"
    by (simp add: loginIssue_def toLowerCase_def lowerChar_def js_def)
  have reqs: "extractRequirements loginIssue = Returns [js ''Implementar: Login'']"
    by (simp add: extractRequirements_def reqPatterns_def execLoop_empty_input loginIssue_def js_def)
  have crit: "extractAcceptanceCriteria loginIssue = Returns []"
    by (simp add: extractAcceptanceCriteria_def criteriaPatterns_def execLoop_empty_input loginIssue_def)
  have sugg: "generateTestingSuggestions loginIssue (js ''login '')
     = [js ''Verificar login con credenciales v'' @ [0xE1] @ js ''lidas'',
        js ''Verificar error con credenciales inv'' @ [0xE1] @ js ''lidas'',
        js ''Verificar logout funciona correctamente'',
        js ''Probar casos de seguridad (inyecci'' @ [0xF3] @ js ''n, XSS)'',
        js ''Verificar que el cambio no rompe funcionalidad existente'',
        js ''Probar en diferentes navegadores/dispositivos'',
        js ''Validar performance bajo carga normal'',
        js ''Revisar logs de errores durante las pruebas'']"
    by (simp add: generateTestingSuggestions_def pushedSuggestions_def testingSuggestionsTable_def
        universalSuggestions_def dedupe_def js_def)
  have risk: "identifyRiskAreas (js ''login '') (labels loginIssue) = []"
    by (simp add: identifyRiskAreas_def riskIndicators_def loginIssue_def regex_eval)
  have types: "determineTestTypes (js ''login '') (labels loginIssue)
     = [js ''Testing Funcional'', js ''Testing de Regresi'' @ [0xF3] @ js ''n'']"
    by (simp add: determineTestTypes_def typeMapping_def baselineTestTypes_def dedupe_def regex_eval)
  have d: "description loginIssue = []"
    by (simp add: loginIssue_def)
  have "analyzeIssueForQA loginIssue
       = Returns \<lparr>requirements = [js ''Implementar: Login''],
                  acceptanceCriteria = [],
                  testingSuggestions = generateTestingSuggestions loginIssue (js ''login ''),
                  riskAreas = identifyRiskAreas (js ''login '') (labels loginIssue),
                  testTypes = determineTestTypes (js ''login '') (labels loginIssue)\<rparr>"
    unfolding analyzeIssueForQA_def Let_def ft by (simp add: reqs crit)
  with d show ?thesis
    unfolding sugg risk types by (simp add: js_def)
qed

end
